theory Spec2Isabelle
  imports Complex_Main
begin

section \<open>The image zoom component: data model\<close>

text \<open>
  The component of \<^verbatim>\<open>image-zoom.component.tsx\<close> is a class with mutable numeric
  fields, driven by the pan responder's callbacks. Each callback becomes a function from
  the component's state to its new state. JavaScript numbers are modelled as real numbers
  (no rounding, no NaN). A division by zero, which in JavaScript yields an infinity or NaN
  and raises nothing, has no real number as its value: a function that divides by a value
  of the state returns \<open>None\<close> where the divisor is zero, so every theorem about it says
  on which inputs the step stays inside the real numbers.
\<close>

subsection \<open>Events\<close>

text \<open>One entry of \<^verbatim>\<open>changedTouches\<close>; the native event itself has the same four fields.\<close>

record touch =
  pageX :: real
  pageY :: real
  locationX :: real
  locationY :: real

text \<open>
  \<^verbatim>\<open>evt.nativeEvent\<close>: its own coordinates (\<open>point\<close>), \<^verbatim>\<open>changedTouches[0]\<close>
  (\<open>touch0\<close>, always present in an event of the pan responder) and the touches after
  it (\<open>touches\<close>), so that \<^verbatim>\<open>changedTouches.length\<close> is \<open>1 + length touches\<close>.
\<close>

record nativeEvent =
  point :: touch
  touch0 :: touch
  touches :: "touch list"

definition changedTouches_length :: "nativeEvent \<Rightarrow> nat" where
  "changedTouches_length evt = 1 + length (touches evt)"

record gestureState =
  dx :: real
  dy :: real
  vx :: real

record ICenterOn =
  co_x :: real
  co_y :: real
  co_scale :: real
  co_duration :: "real option"

subsection \<open>Configuration\<close>

text \<open>
  The props of the component. Their class is declared outside the component's file, so
  they are a parameter of every operation. A number the code reads as
  \<^verbatim>\<open>this.props.v || 0\<close> is optional; a callback is represented by whether it is provided.
\<close>

record ImageZoomProps =
  cropWidth :: real
  cropHeight :: real
  imageWidth :: real
  imageHeight :: real
  panToMove :: bool
  pinchToZoom :: bool
  enableDoubleClickZoom :: bool
  enableSwipeDown :: bool
  enableCenterFocus :: bool
  clickDistance :: "real option"
  maxOverflow :: "real option"
  minScale :: "real option"
  maxScale :: "real option"
  doubleClickInterval :: "real option"
  swipeDownThreshold :: "real option"
  centerOnProp :: "ICenterOn option"
  onLongPress :: bool
  onDoubleClick :: bool
  onClick :: bool
  onSwipeDown :: bool
  horizontalOuterRangeOffset :: bool
  responderRelease :: bool
  onMove :: bool

text \<open>\<^verbatim>\<open>v || 0\<close> on an optional number: an absent value and zero both give zero.\<close>

definition or0 :: "real option \<Rightarrow> real" where
  "or0 v = (case v of None \<Rightarrow> 0 | Some r \<Rightarrow> r)"

text \<open>The truthiness of an optional number: present and not zero.\<close>

definition truthy :: "real option \<Rightarrow> bool" where
  "truthy v = (case v of None \<Rightarrow> False | Some r \<Rightarrow> r \<noteq> 0)"

text \<open>Division as the code can use it inside the real numbers.\<close>

definition jsdiv :: "real \<Rightarrow> real \<Rightarrow> real option" where
  "jsdiv a b = (if b = 0 then None else Some (a / b))"

subsection \<open>Effects and state\<close>

datatype anim = AnimScale | AnimPositionX | AnimPositionY

text \<open>
  What the component does to its collaborators, in order: the callbacks of the props it
  invokes and the tweens it starts (\<open>target\<close>, \<open>toValue\<close>, \<open>duration\<close>). A parallel
  tween carries whether a completion callback (the move notification of \<open>centerOn\<close>)
  is attached.
\<close>

datatype effect =
    CallOnLongPress touch
  | CallOnDoubleClick touch
  | CallOnClick touch
  | CallOnSwipeDown
  | CallHorizontalOuterRangeOffset real
  | CallResponderRelease real real
  | CallOnMove string real real real real
  | TimingStart anim real real
  | ParallelStart "(anim \<times> real \<times> real) list" bool

text \<open>
  The private fields of the class. A timeout field holds the payload of the pending timer,
  or \<open>None\<close> when no timer is pending (never armed, cleared, or fired).
\<close>

record ImageViewer =
  lastPositionX :: "real option"
  positionX :: real
  animatedPositionX :: real
  lastPositionY :: "real option"
  positionY :: real
  animatedPositionY :: real
  scale :: real
  animatedScale :: real
  zoomLastDistance :: "real option"
  zoomCurrentDistance :: real
  lastTouchStartTime :: real
  horizontalWholeOuterCounter :: real
  swipeDownOffset :: real
  horizontalWholeCounter :: real
  verticalWholeCounter :: real
  centerDiffX :: real
  centerDiffY :: real
  singleClickTimeout :: "touch option"
  longPressTimeout :: "touch option"
  lastClickTime :: real
  doubleClickX :: real
  doubleClickY :: real
  isDoubleClick :: bool
  isLongPress :: bool
  isHorizontalWrap :: bool
  effects :: "effect list"

text \<open>The field initialisers of the class.\<close>

definition initial :: ImageViewer where
  "initial = \<lparr>
     lastPositionX = None, positionX = 0, animatedPositionX = 0,
     lastPositionY = None, positionY = 0, animatedPositionY = 0,
     scale = 1, animatedScale = 1,
     zoomLastDistance = None, zoomCurrentDistance = 0,
     lastTouchStartTime = 0,
     horizontalWholeOuterCounter = 0, swipeDownOffset = 0,
     horizontalWholeCounter = 0, verticalWholeCounter = 0,
     centerDiffX = 0, centerDiffY = 0,
     singleClickTimeout = None, longPressTimeout = None,
     lastClickTime = 0, doubleClickX = 0, doubleClickY = 0,
     isDoubleClick = False, isLongPress = False, isHorizontalWrap = False,
     effects = [] \<rparr>"

definition emit :: "effect \<Rightarrow> ImageViewer \<Rightarrow> ImageViewer" where
  "emit e s = s\<lparr>effects := effects s @ [e]\<rparr>"

text \<open>\<^verbatim>\<open>imageDidMove(type)\<close>: the move notification, when the callback is provided.\<close>

definition imageDidMove :: "ImageZoomProps \<Rightarrow> string \<Rightarrow> ImageViewer \<Rightarrow> ImageViewer" where
  "imageDidMove p ty s =
     (if onMove p
      then emit (CallOnMove ty (positionX s) (positionY s) (scale s) (zoomCurrentDistance s)) s
      else s)"

section \<open>Gesture start\<close>

text \<open>
  The zoom toggle of a double click (the block under \<^verbatim>\<open>enableDoubleClickZoom\<close> in
  \<^verbatim>\<open>onPanResponderGrant\<close>). The divisor is the scale just set to 2.
\<close>

definition doubleClickZoom :: "ImageZoomProps \<Rightarrow> ImageViewer \<Rightarrow> ImageViewer" where
  "doubleClickZoom p s =
     (let s1 =
        (if scale s > 1 \<or> scale s < 1
         then s\<lparr>scale := 1, positionX := 0, positionY := 0\<rparr>
         else
           (let beforeScale = scale s;
                s' = s\<lparr>scale := 2\<rparr>;
                diffScale = scale s' - beforeScale
            in s'\<lparr>positionX := ((cropWidth p / 2 - doubleClickX s') * diffScale) / scale s',
                  positionY := ((cropHeight p / 2 - doubleClickY s') * diffScale) / scale s'\<rparr>));
          s2 = imageDidMove p ''centerOn'' s1
      in emit (ParallelStart
                 [(AnimScale, scale s2, 100),
                  (AnimPositionX, positionX s2, 100),
                  (AnimPositionY, positionY s2, 100)] False) s2)"

text \<open>
  \<^verbatim>\<open>onPanResponderGrant\<close>. \<open>now\<close> is the clock reading of \<^verbatim>\<open>new Date().getTime()\<close>,
  taken as the same at each place of one call.
\<close>

definition onPanResponderGrant ::
  "ImageZoomProps \<Rightarrow> nativeEvent \<Rightarrow> real \<Rightarrow> ImageViewer \<Rightarrow> ImageViewer" where
  "onPanResponderGrant p evt now s =
     (let s1 = s\<lparr>lastPositionX := None, lastPositionY := None, zoomLastDistance := None,
                  horizontalWholeCounter := 0, verticalWholeCounter := 0,
                  lastTouchStartTime := now,
                  isDoubleClick := False, isLongPress := False, isHorizontalWrap := False\<rparr>;
          s2 = s1\<lparr>singleClickTimeout := None\<rparr>;
          s3 = (case touches evt of
                  [] \<Rightarrow> s2
                | t1 # _ \<Rightarrow>
                    s2\<lparr>centerDiffX := (pageX (touch0 evt) + pageX t1) / 2 - cropWidth p / 2,
                       centerDiffY := (pageY (touch0 evt) + pageY t1) / 2 - cropHeight p / 2\<rparr>);
          s4 = s3\<lparr>longPressTimeout := Some (point evt)\<rparr>
      in if changedTouches_length evt \<le> 1
         then
           (if now - lastClickTime s4 < or0 (doubleClickInterval p)
            then
              (let s5 = s4\<lparr>lastClickTime := 0,
                           doubleClickX := pageX (touch0 evt),
                           doubleClickY := pageY (touch0 evt)\<rparr>;
                   s6 = (if onDoubleClick p
                         then emit (CallOnDoubleClick
                                \<lparr>pageX = doubleClickX s5, pageY = doubleClickY s5,
                                 locationX = locationX (touch0 evt),
                                 locationY = locationY (touch0 evt)\<rparr>) s5
                         else s5);
                   s7 = s6\<lparr>longPressTimeout := None, isDoubleClick := True\<rparr>
               in if enableDoubleClickZoom p then doubleClickZoom p s7 else s7)
            else s4\<lparr>lastClickTime := now\<rparr>)
         else s4)"

text \<open>The long-press timer fires: the callback armed by \<^verbatim>\<open>onPanResponderGrant\<close>.\<close>

definition longPressFire :: "ImageZoomProps \<Rightarrow> ImageViewer \<Rightarrow> ImageViewer" where
  "longPressFire p s =
     (case longPressTimeout s of
        None \<Rightarrow> s
      | Some pt \<Rightarrow>
          (let s1 = s\<lparr>longPressTimeout := None, isLongPress := True\<rparr>
           in if onLongPress p then emit (CallOnLongPress pt) s1 else s1))"

section \<open>Gesture move\<close>

text \<open>
  Single touch, the image wider than the box: the overflow counter takes the part of the
  displacement that moves against or along an existing overflow. The result is the
  displacement left for the image and the state.
\<close>

definition absorbOverflow ::
  "ImageZoomProps \<Rightarrow> real \<Rightarrow> ImageViewer \<Rightarrow> real \<times> ImageViewer" where
  "absorbOverflow p diffX s =
     (if horizontalWholeOuterCounter s > 0
      then
        (if diffX < 0
         then
           (if horizontalWholeOuterCounter s > \<bar>diffX\<bar>
            then (0, s\<lparr>horizontalWholeOuterCounter := horizontalWholeOuterCounter s + diffX\<rparr>)
            else
              (let diffX' = diffX + horizontalWholeOuterCounter s;
                   s1 = s\<lparr>horizontalWholeOuterCounter := 0\<rparr>
               in (diffX', if horizontalOuterRangeOffset p
                           then emit (CallHorizontalOuterRangeOffset 0) s1 else s1)))
         else (diffX, s\<lparr>horizontalWholeOuterCounter := horizontalWholeOuterCounter s + diffX\<rparr>))
      else if horizontalWholeOuterCounter s < 0
      then
        (if diffX > 0
         then
           (if \<bar>horizontalWholeOuterCounter s\<bar> > diffX
            then (0, s\<lparr>horizontalWholeOuterCounter := horizontalWholeOuterCounter s + diffX\<rparr>)
            else
              (let diffX' = diffX + horizontalWholeOuterCounter s;
                   s1 = s\<lparr>horizontalWholeOuterCounter := 0\<rparr>
               in (diffX', if horizontalOuterRangeOffset p
                           then emit (CallHorizontalOuterRangeOffset 0) s1 else s1)))
         else (diffX, s\<lparr>horizontalWholeOuterCounter := horizontalWholeOuterCounter s + diffX\<rparr>))
      else (diffX, s))"

text \<open>
  The displacement of the image and the hard clamp of \<open>positionX\<close> to the tolerance
  \<open>horizontalMax\<close>, with the nudge of the overflow counter by \<open>1 / 1e10\<close>.
\<close>

definition dragHorizontal :: "ImageZoomProps \<Rightarrow> real \<Rightarrow> ImageViewer \<Rightarrow> ImageViewer option" where
  "dragHorizontal p diffX s =
     (case jsdiv diffX (scale s) of
        None \<Rightarrow> None
      | Some q \<Rightarrow>
          (let s1 = s\<lparr>positionX := positionX s + q\<rparr>
           in case jsdiv ((imageWidth p * scale s1 - cropWidth p) / 2) (scale s1) of
                None \<Rightarrow> None
              | Some horizontalMax \<Rightarrow>
                  (let s2 =
                     (if positionX s1 < - horizontalMax
                      then s1\<lparr>positionX := - horizontalMax,
                              horizontalWholeOuterCounter :=
                                horizontalWholeOuterCounter s1 + (- 1) / 10 ^ 10\<rparr>
                      else if positionX s1 > horizontalMax
                      then s1\<lparr>positionX := horizontalMax,
                              horizontalWholeOuterCounter :=
                                horizontalWholeOuterCounter s1 + 1 / 10 ^ 10\<rparr>
                      else s1)
                   in Some (s2\<lparr>animatedPositionX := positionX s2\<rparr>))))"

text \<open>The overflow counter is kept within \<^verbatim>\<open>maxOverflow || 0\<close> on both sides.\<close>

definition limitOverflow :: "ImageZoomProps \<Rightarrow> ImageViewer \<Rightarrow> ImageViewer" where
  "limitOverflow p s =
     (if horizontalWholeOuterCounter s > or0 (maxOverflow p)
      then s\<lparr>horizontalWholeOuterCounter := or0 (maxOverflow p)\<rparr>
      else if horizontalWholeOuterCounter s < - or0 (maxOverflow p)
      then s\<lparr>horizontalWholeOuterCounter := - or0 (maxOverflow p)\<rparr>
      else s)"

text \<open>The horizontal part of a single-touch move, entered when \<open>swipeDownOffset\<close> is 0.\<close>

definition panHorizontal ::
  "ImageZoomProps \<Rightarrow> real \<Rightarrow> real \<Rightarrow> ImageViewer \<Rightarrow> ImageViewer option" where
  "panHorizontal p diffX diffY s =
     (let s1 = (if \<bar>diffX\<bar> > \<bar>diffY\<bar> then s\<lparr>isHorizontalWrap := True\<rparr> else s);
          r = (if imageWidth p * scale s1 > cropWidth p
               then (case absorbOverflow p diffX s1 of (diffX', s2) \<Rightarrow> dragHorizontal p diffX' s2)
               else Some (s1\<lparr>horizontalWholeOuterCounter :=
                                horizontalWholeOuterCounter s1 + diffX\<rparr>))
      in case r of
           None \<Rightarrow> None
         | Some s3 \<Rightarrow>
             (let s4 = limitOverflow p s3
              in Some (if horizontalWholeOuterCounter s4 \<noteq> 0 \<and> horizontalOuterRangeOffset p
                       then emit (CallHorizontalOuterRangeOffset (horizontalWholeOuterCounter s4)) s4
                       else s4)))"

text \<open>The vertical part of a single-touch move: free drag, or the swipe down.\<close>

definition panVertical :: "ImageZoomProps \<Rightarrow> real \<Rightarrow> ImageViewer \<Rightarrow> ImageViewer option" where
  "panVertical p diffY s =
     (if imageHeight p * scale s > cropHeight p
      then
        (case jsdiv diffY (scale s) of
           None \<Rightarrow> None
         | Some q \<Rightarrow>
             (let s1 = s\<lparr>positionY := positionY s + q\<rparr>
              in Some (s1\<lparr>animatedPositionY := positionY s1\<rparr>)))
      else if enableSwipeDown p \<and> \<not> isHorizontalWrap s
      then
        (let s1 = s\<lparr>swipeDownOffset := swipeDownOffset s + diffY\<rparr>
         in if swipeDownOffset s1 > 0
            then
              (case jsdiv diffY (scale s1) of
                 None \<Rightarrow> None
               | Some q \<Rightarrow>
                   (let s2 = s1\<lparr>positionY := positionY s1 + q\<rparr>;
                        s3 = s2\<lparr>animatedPositionY := positionY s2\<rparr>;
                        s4 = s3\<lparr>scale := scale s3 - diffY / 1000\<rparr>
                    in Some (s4\<lparr>animatedScale := scale s4\<rparr>)))
            else Some s1)
      else Some s)"

text \<open>
  The displacement since the previous move event: \<^verbatim>\<open>d - (last || 0)\<close>, and 0 when
  no previous event of the gesture is recorded.
\<close>

definition stepDiff :: "real option \<Rightarrow> real \<Rightarrow> real" where
  "stepDiff lastPosition d = (if lastPosition = None then 0 else d - or0 lastPosition)"

text \<open>
  The bookkeeping that opens the single-touch branch: the displacement is recorded and
  added to the totals of the gesture, and a total beyond 5 on either axis clears the
  long-press timer.
\<close>

definition trackMove :: "gestureState \<Rightarrow> ImageViewer \<Rightarrow> ImageViewer" where
  "trackMove g s =
     (let diffX = stepDiff (lastPositionX s) (dx g);
          diffY = stepDiff (lastPositionY s) (dy g);
          s1 = s\<lparr>lastPositionX := Some (dx g), lastPositionY := Some (dy g)\<rparr>;
          s2 = s1\<lparr>horizontalWholeCounter := horizontalWholeCounter s1 + diffX,
                  verticalWholeCounter := verticalWholeCounter s1 + diffY\<rparr>
      in if \<bar>horizontalWholeCounter s2\<bar> > 5 \<or> \<bar>verticalWholeCounter s2\<bar> > 5
         then s2\<lparr>longPressTimeout := None\<rparr> else s2)"

text \<open>The single-touch branch of \<^verbatim>\<open>onPanResponderMove\<close>.\<close>

definition moveSingle ::
  "ImageZoomProps \<Rightarrow> gestureState \<Rightarrow> ImageViewer \<Rightarrow> ImageViewer option" where
  "moveSingle p g s =
     (let diffX = stepDiff (lastPositionX s) (dx g);
          diffY = stepDiff (lastPositionY s) (dy g);
          s3 = trackMove g s
      in if panToMove p
         then
           (case (if swipeDownOffset s3 = 0 then panHorizontal p diffX diffY s3 else Some s3) of
              None \<Rightarrow> None
            | Some s4 \<Rightarrow> panVertical p diffY s4)
         else Some s3)"

text \<open>
  \<^verbatim>\<open>Number(x.toFixed(1))\<close>: the multiple of one tenth nearest to \<open>x\<close>, a tie going
  away from zero.
\<close>

definition toFixed1 :: "real \<Rightarrow> real" where
  "toFixed1 x =
     (if x < 0 then - (of_int \<lfloor>- x * 10 + 1 / 2\<rfloor> / 10) else of_int \<lfloor>x * 10 + 1 / 2\<rfloor> / 10)"

text \<open>The span of the first two touches, as the pinch branch computes it.\<close>

definition pinchDistance :: "touch \<Rightarrow> touch \<Rightarrow> real" where
  "pinchDistance t0 t1 =
     (let (minX, maxX) = (if locationX t0 > locationX t1
                          then (pageX t1, pageX t0) else (pageX t0, pageX t1));
          (minY, maxY) = (if locationY t0 > locationY t1
                          then (pageY t1, pageY t0) else (pageY t0, pageY t1));
          widthDistance = maxX - minX;
          heightDistance = maxY - minY;
          diagonalDistance = sqrt (widthDistance * widthDistance + heightDistance * heightDistance)
      in toFixed1 diagonalDistance)"

text \<open>The scale a pinch step sets: the sum, then the two bounds in the order of the code.\<close>

definition pinchScale :: "ImageZoomProps \<Rightarrow> real \<Rightarrow> real \<Rightarrow> real \<Rightarrow> real" where
  "pinchScale p oldScale currentDistance lastDistance =
     (let distanceDiff = (currentDistance - lastDistance) / 200;
          zoom = oldScale + distanceDiff;
          zoom1 = (if zoom < or0 (minScale p) then or0 (minScale p) else zoom);
          zoom2 = (if zoom1 > or0 (maxScale p) then or0 (maxScale p) else zoom1)
      in zoom2)"

text \<open>The branch of \<^verbatim>\<open>onPanResponderMove\<close> for more than one touch.\<close>

definition moveMulti ::
  "ImageZoomProps \<Rightarrow> touch \<Rightarrow> touch \<Rightarrow> ImageViewer \<Rightarrow> ImageViewer option" where
  "moveMulti p t0 t1 s =
     (let s1 = s\<lparr>longPressTimeout := None\<rparr>
      in if pinchToZoom p
         then
           (let s2 = s1\<lparr>zoomCurrentDistance := pinchDistance t0 t1\<rparr>;
                r = (case zoomLastDistance s2 of
                       None \<Rightarrow> Some s2
                     | Some lastDistance \<Rightarrow>
                         (let zoom = pinchScale p (scale s2) (zoomCurrentDistance s2) lastDistance;
                              beforeScale = scale s2;
                              s3 = s2\<lparr>scale := zoom\<rparr>;
                              s4 = s3\<lparr>animatedScale := scale s3\<rparr>;
                              diffScale = scale s4 - beforeScale
                          in case jsdiv (centerDiffX s4 * diffScale) (scale s4) of
                               None \<Rightarrow> None
                             | Some qx \<Rightarrow>
                                 (case jsdiv (centerDiffY s4 * diffScale) (scale s4) of
                                    None \<Rightarrow> None
                                  | Some qy \<Rightarrow>
                                      (let s5 = s4\<lparr>positionX := positionX s4 - qx\<rparr>;
                                           s6 = s5\<lparr>positionY := positionY s5 - qy\<rparr>;
                                           s7 = s6\<lparr>animatedPositionX := positionX s6\<rparr>
                                       in Some (s7\<lparr>animatedPositionY := positionY s7\<rparr>)))))
            in case r of
                 None \<Rightarrow> None
               | Some s8 \<Rightarrow> Some (s8\<lparr>zoomLastDistance := Some (zoomCurrentDistance s8)\<rparr>))
         else Some s1)"

text \<open>\<^verbatim>\<open>onPanResponderMove\<close>.\<close>

definition onPanResponderMove ::
  "ImageZoomProps \<Rightarrow> nativeEvent \<Rightarrow> gestureState \<Rightarrow> ImageViewer \<Rightarrow> ImageViewer option" where
  "onPanResponderMove p evt g s =
     (if isDoubleClick s then Some s
      else
        (case (case touches evt of
                 [] \<Rightarrow> moveSingle p g s
               | t1 # _ \<Rightarrow> moveMulti p (touch0 evt) t1 s) of
           None \<Rightarrow> None
         | Some s' \<Rightarrow> Some (imageDidMove p ''onPanResponderMove'' s')))"

section \<open>Gesture release and the public operations\<close>

text \<open>\<^verbatim>\<open>resetScale\<close>.\<close>

definition resetScale :: "ImageViewer \<Rightarrow> ImageViewer" where
  "resetScale s = (s\<lparr>positionX := 0, positionY := 0, scale := 1\<rparr>)\<lparr>animatedScale := 1\<rparr>"

text \<open>\<^verbatim>\<open>reset\<close>: each field, then its animated value.\<close>

definition reset :: "ImageViewer \<Rightarrow> ImageViewer" where
  "reset s =
     (let s1 = s\<lparr>scale := 1\<rparr>;
          s2 = s1\<lparr>animatedScale := scale s1\<rparr>;
          s3 = s2\<lparr>positionX := 0\<rparr>;
          s4 = s3\<lparr>animatedPositionX := positionX s3\<rparr>;
          s5 = s4\<lparr>positionY := 0\<rparr>
      in s5\<lparr>animatedPositionY := positionY s5\<rparr>)"

text \<open>The test that opens \<^verbatim>\<open>panResponderReleaseResolve\<close>: the swipe down is recognised.\<close>

definition isSwipeDown :: "ImageZoomProps \<Rightarrow> ImageViewer \<Rightarrow> bool" where
  "isSwipeDown p s =
     (enableSwipeDown p \<and> truthy (swipeDownThreshold p)
        \<and> swipeDownOffset s > or0 (swipeDownThreshold p))"

text \<open>The vertical clamp of the settle: \<open>positionY\<close> within the tolerance \<open>verticalMax\<close>.\<close>

definition settleVertical :: "ImageZoomProps \<Rightarrow> ImageViewer \<Rightarrow> ImageViewer option" where
  "settleVertical p s =
     (if imageHeight p * scale s > cropHeight p
      then
        (case jsdiv ((imageHeight p * scale s - cropHeight p) / 2) (scale s) of
           None \<Rightarrow> None
         | Some verticalMax \<Rightarrow>
             (let s1 = (if positionY s < - verticalMax then s\<lparr>positionY := - verticalMax\<rparr>
                        else if positionY s > verticalMax then s\<lparr>positionY := verticalMax\<rparr>
                        else s)
              in Some (emit (TimingStart AnimPositionY (positionY s1) 100) s1)))
      else Some s)"

definition settleHorizontal :: "ImageZoomProps \<Rightarrow> ImageViewer \<Rightarrow> ImageViewer option" where
  "settleHorizontal p s =
     (if imageWidth p * scale s > cropWidth p
      then
        (case jsdiv ((imageWidth p * scale s - cropWidth p) / 2) (scale s) of
           None \<Rightarrow> None
         | Some horizontalMax \<Rightarrow>
             (let s1 = (if positionX s < - horizontalMax then s\<lparr>positionX := - horizontalMax\<rparr>
                        else if positionX s > horizontalMax then s\<lparr>positionX := horizontalMax\<rparr>
                        else s)
              in Some (emit (TimingStart AnimPositionX (positionX s1) 100) s1)))
      else Some s)"

text \<open>The last part of the settle: the recentring at scale 1 and the two resets.\<close>

definition settleFinish :: "ImageZoomProps \<Rightarrow> ImageViewer \<Rightarrow> ImageViewer" where
  "settleFinish p s =
     (let s1 = (if enableCenterFocus p \<and> scale s = 1
                then
                  (let t = s\<lparr>positionX := 0, positionY := 0\<rparr>
                   in emit (TimingStart AnimPositionY (positionY t) 100)
                        (emit (TimingStart AnimPositionX (positionX t) 100) t))
                else s);
          s2 = s1\<lparr>horizontalWholeOuterCounter := 0\<rparr>;
          s3 = s2\<lparr>swipeDownOffset := 0\<rparr>
      in imageDidMove p ''onPanResponderRelease'' s3)"

text \<open>\<^verbatim>\<open>panResponderReleaseResolve\<close>.\<close>

definition panResponderReleaseResolve :: "ImageZoomProps \<Rightarrow> ImageViewer \<Rightarrow> ImageViewer option" where
  "panResponderReleaseResolve p s =
     (if isSwipeDown p s
      then Some (if onSwipeDown p then emit CallOnSwipeDown s else s)
      else
        (let s1 = (if enableCenterFocus p \<and> scale s < 1
                   then (let t = s\<lparr>scale := 1\<rparr> in emit (TimingStart AnimScale (scale t) 100) t)
                   else s);
             s2 = (if imageWidth p * scale s1 \<le> cropWidth p
                   then (let t = s1\<lparr>positionX := 0\<rparr>
                         in emit (TimingStart AnimPositionX (positionX t) 100) t)
                   else s1);
             s3 = (if imageHeight p * scale s2 \<le> cropHeight p
                   then (let t = s2\<lparr>positionY := 0\<rparr>
                         in emit (TimingStart AnimPositionY (positionY t) 100) t)
                   else s2)
         in case settleVertical p s3 of
              None \<Rightarrow> None
            | Some s4 \<Rightarrow>
                (case settleHorizontal p s4 of
                   None \<Rightarrow> None
                 | Some s5 \<Rightarrow> Some (settleFinish p s5))))"

text \<open>
  The test of \<^verbatim>\<open>onPanResponderRelease\<close> for a possible single click: one touch, moved
  less than \<^verbatim>\<open>clickDistance || 0\<close>.
\<close>

definition isClickRelease :: "ImageZoomProps \<Rightarrow> nativeEvent \<Rightarrow> gestureState \<Rightarrow> bool" where
  "isClickRelease p evt g =
     (let moveDistance = sqrt (dx g * dx g + dy g * dy g)
      in changedTouches_length evt = 1 \<and> moveDistance < or0 (clickDistance p))"

text \<open>\<^verbatim>\<open>onPanResponderRelease\<close>.\<close>

definition onPanResponderRelease ::
  "ImageZoomProps \<Rightarrow> nativeEvent \<Rightarrow> gestureState \<Rightarrow> ImageViewer \<Rightarrow> ImageViewer option" where
  "onPanResponderRelease p evt g s =
     (let s1 = s\<lparr>longPressTimeout := None\<rparr>
      in if isDoubleClick s1 then Some s1
         else if isLongPress s1 then Some s1
         else if isClickRelease p evt g
         then Some (s1\<lparr>singleClickTimeout := Some (point evt)\<rparr>)
         else
           panResponderReleaseResolve p
             (if responderRelease p
              then emit (CallResponderRelease (vx g) (scale s1)) s1 else s1))"

text \<open>The single-click timer fires: the callback armed by \<^verbatim>\<open>onPanResponderRelease\<close>.\<close>

definition singleClickFire :: "ImageZoomProps \<Rightarrow> ImageViewer \<Rightarrow> ImageViewer" where
  "singleClickFire p s =
     (case singleClickTimeout s of
        None \<Rightarrow> s
      | Some pt \<Rightarrow>
          (let s1 = s\<lparr>singleClickTimeout := None\<rparr>
           in if onClick p then emit (CallOnClick pt) s1 else s1))"

text \<open>\<^verbatim>\<open>didCenterOnChange\<close>.\<close>

definition didCenterOnChange :: "ICenterOn \<Rightarrow> ICenterOn \<Rightarrow> bool" where
  "didCenterOnChange params paramsNext =
     (co_x params \<noteq> co_x paramsNext \<or> co_y params \<noteq> co_y paramsNext
        \<or> co_scale params \<noteq> co_scale paramsNext)"

text \<open>\<^verbatim>\<open>centerOn\<close>: the fields are set at once and one parallel tween is started.\<close>

definition centerOn :: "ICenterOn \<Rightarrow> ImageViewer \<Rightarrow> ImageViewer" where
  "centerOn params s =
     (let s1 = s\<lparr>positionX := co_x params, positionY := co_y params, scale := co_scale params\<rparr>;
          duration = (if truthy (co_duration params) then or0 (co_duration params) else 300)
      in emit (ParallelStart
                 [(AnimScale, scale s1, duration),
                  (AnimPositionX, positionX s1, duration),
                  (AnimPositionY, positionY s1, duration)] True) s1)"

text \<open>\<^verbatim>\<open>componentDidMount\<close> and \<^verbatim>\<open>componentDidUpdate\<close>, the latter with the previous props.\<close>

definition componentDidMount :: "ImageZoomProps \<Rightarrow> ImageViewer \<Rightarrow> ImageViewer" where
  "componentDidMount p s = (case centerOnProp p of None \<Rightarrow> s | Some c \<Rightarrow> centerOn c s)"

definition componentDidUpdate ::
  "ImageZoomProps \<Rightarrow> ImageZoomProps \<Rightarrow> ImageViewer \<Rightarrow> ImageViewer" where
  "componentDidUpdate p prevProps s =
     (case centerOnProp p of
        None \<Rightarrow> s
      | Some c \<Rightarrow>
          (case centerOnProp prevProps of
             None \<Rightarrow> centerOn c s
           | Some c0 \<Rightarrow> if didCenterOnChange c0 c then centerOn c s else s))"

section \<open>The component as a machine\<close>

text \<open>
  Everything that can happen to a mounted component: the callbacks of the pan responder,
  the two timers, and the public methods. The lifecycle methods act on the state only
  through \<open>centerOn\<close>, which is the input \<open>CenterOn\<close>. The props stay fixed along a run.
\<close>

datatype input =
    Grant nativeEvent real
  | Move nativeEvent gestureState
  | Release nativeEvent gestureState
  | LongPressFire
  | SingleClickFire
  | ResetScale
  | Reset
  | CenterOn ICenterOn
  | ReleaseResolve

fun step :: "ImageZoomProps \<Rightarrow> input \<Rightarrow> ImageViewer \<Rightarrow> ImageViewer option" where
  "step p (Grant evt now) s = Some (onPanResponderGrant p evt now s)"
| "step p (Move evt g) s = onPanResponderMove p evt g s"
| "step p (Release evt g) s = onPanResponderRelease p evt g s"
| "step p LongPressFire s = Some (longPressFire p s)"
| "step p SingleClickFire s = Some (singleClickFire p s)"
| "step p ResetScale s = Some (resetScale s)"
| "step p Reset s = Some (reset s)"
| "step p (CenterOn c) s = Some (centerOn c s)"
| "step p ReleaseResolve s = panResponderReleaseResolve p s"

fun run :: "ImageZoomProps \<Rightarrow> input list \<Rightarrow> ImageViewer \<Rightarrow> ImageViewer option" where
  "run p [] s = Some s"
| "run p (i # is) s = (case step p i s of None \<Rightarrow> None | Some s' \<Rightarrow> run p is s')"

text \<open>The effects of a step: what the log has gained from \<open>s\<close> to \<open>s'\<close>.\<close>

definition emitted :: "ImageViewer \<Rightarrow> ImageViewer \<Rightarrow> effect list" where
  "emitted s s' = drop (length (effects s)) (effects s')"

text \<open>
  The interval \<open>[lo, hi]\<close> a value is brought into, the lower bound applied first: the
  reading of ``clamped to \<open>[minScale, maxScale]\<close>''.
\<close>

definition clamp :: "real \<Rightarrow> real \<Rightarrow> real \<Rightarrow> real" where
  "clamp v lo hi = min (max v lo) hi"

section \<open>Example configuration and events\<close>

text \<open>
  A square box of 300 with an image of 300 by 200 in it (as wide as the box, less high),
  every feature enabled and every callback provided.
\<close>

definition exampleProps :: ImageZoomProps where
  "exampleProps = \<lparr>
     cropWidth = 300, cropHeight = 300, imageWidth = 300, imageHeight = 200,
     panToMove = True, pinchToZoom = True, enableDoubleClickZoom = True,
     enableSwipeDown = True, enableCenterFocus = True,
     clickDistance = Some 10, maxOverflow = Some 100,
     minScale = Some (3 / 5), maxScale = Some 10,
     doubleClickInterval = Some 175, swipeDownThreshold = Some 230,
     centerOnProp = None,
     onLongPress = True, onDoubleClick = True, onClick = True, onSwipeDown = True,
     horizontalOuterRangeOffset = True, responderRelease = True, onMove = True \<rparr>"

definition touchAt :: "real \<Rightarrow> real \<Rightarrow> touch" where
  "touchAt a b = \<lparr>pageX = a, pageY = b, locationX = a, locationY = b\<rparr>"

text \<open>An event of one touch, and one of two touches.\<close>

definition oneTouch :: "real \<Rightarrow> real \<Rightarrow> nativeEvent" where
  "oneTouch a b = \<lparr>point = touchAt a b, touch0 = touchAt a b, touches = []\<rparr>"

definition twoTouches :: "real \<Rightarrow> real \<Rightarrow> real \<Rightarrow> real \<Rightarrow> nativeEvent" where
  "twoTouches a b c d = \<lparr>point = touchAt a b, touch0 = touchAt a b, touches = [touchAt c d]\<rparr>"

definition drag :: "real \<Rightarrow> real \<Rightarrow> gestureState" where
  "drag a b = \<lparr>dx = a, dy = b, vx = 0\<rparr>"

text \<open>
  A press in the middle of the box at time 1000 and a drag by \<open>(a, b)\<close>, still held: the
  first move event of a gesture only records the position, the second carries the
  displacement. \<open>releaseAfter\<close> lifts the finger there.
\<close>

definition dragGesture :: "real \<Rightarrow> real \<Rightarrow> input list" where
  "dragGesture a b =
     [Grant (oneTouch 150 150) 1000,
      Move (oneTouch 150 150) (drag 0 0),
      Move (oneTouch (150 + a) (150 + b)) (drag a b)]"

definition releaseAfter :: "real \<Rightarrow> real \<Rightarrow> input" where
  "releaseAfter a b = Release (oneTouch (150 + a) (150 + b)) (drag a b)"

text \<open>Two taps at the point \<open>(100, 120)\<close>, 100 ms apart, the first at time \<open>t\<close>.\<close>

definition doubleTap :: "real \<Rightarrow> input list" where
  "doubleTap t =
     [Grant (oneTouch 100 120) t, Release (oneTouch 100 120) (drag 0 0),
      Grant (oneTouch 100 120) (t + 100), Release (oneTouch 100 120) (drag 0 0)]"

text \<open>
  Two fingers on the horizontal line through the middle of the box, \<open>w\<close> apart and
  centred, so that the pinch anchor is the centre of the box.
\<close>

definition pinchAt :: "real \<Rightarrow> nativeEvent" where
  "pinchAt w = twoTouches (150 - w / 2) 150 (150 + w / 2) 150"

text \<open>The state a run from the initial state ends in (used on runs that do end).\<close>

definition stateAfter :: "ImageZoomProps \<Rightarrow> input list \<Rightarrow> ImageViewer" where
  "stateAfter p ins = the (run p ins initial)"

text \<open>The example configuration with the swipe-down threshold set to 0.\<close>

definition zeroThresholdProps :: ImageZoomProps where
  "zeroThresholdProps = exampleProps\<lparr>swipeDownThreshold := Some 0\<rparr>"

text \<open>The example configuration with a \<open>centerOn\<close> prop: centre \<open>(10, 20)\<close> at scale 2.\<close>

definition centeredProps :: ImageZoomProps where
  "centeredProps =
     exampleProps\<lparr>centerOnProp :=
       Some \<lparr>co_x = 10, co_y = 20, co_scale = 2, co_duration = None\<rparr>\<rparr>"

section \<open>Proof support\<close>

text \<open>The definitions a concrete run is evaluated with.\<close>

lemmas ex_defs = exampleProps_def oneTouch_def twoTouches_def touchAt_def drag_def initial_def
  dragGesture_def releaseAfter_def doubleTap_def pinchAt_def stateAfter_def
  zeroThresholdProps_def centeredProps_def

lemmas op_defs = onPanResponderGrant_def onPanResponderMove_def onPanResponderRelease_def
  moveSingle_def trackMove_def stepDiff_def or0_def truthy_def jsdiv_def panHorizontal_def
  panVertical_def limitOverflow_def imageDidMove_def emit_def changedTouches_length_def
  absorbOverflow_def dragHorizontal_def panResponderReleaseResolve_def isSwipeDown_def
  settleVertical_def settleHorizontal_def settleFinish_def moveMulti_def pinchDistance_def
  pinchScale_def toFixed1_def doubleClickZoom_def isClickRelease_def Let_def

subsection \<open>What the steps leave alone\<close>

lemma emit_fields [simp]:
  "scale (emit e s) = scale s"
  "positionX (emit e s) = positionX s"
  "positionY (emit e s) = positionY s"
  "horizontalWholeOuterCounter (emit e s) = horizontalWholeOuterCounter s"
  "swipeDownOffset (emit e s) = swipeDownOffset s"
  "horizontalWholeCounter (emit e s) = horizontalWholeCounter s"
  "verticalWholeCounter (emit e s) = verticalWholeCounter s"
  "isHorizontalWrap (emit e s) = isHorizontalWrap s"
  "longPressTimeout (emit e s) = longPressTimeout s"
  "zoomLastDistance (emit e s) = zoomLastDistance s"
  "effects (emit e s) = effects s @ [e]"
  by (simp_all add: emit_def)

lemma imageDidMove_fields [simp]:
  "scale (imageDidMove p ty s) = scale s"
  "positionX (imageDidMove p ty s) = positionX s"
  "positionY (imageDidMove p ty s) = positionY s"
  "horizontalWholeOuterCounter (imageDidMove p ty s) = horizontalWholeOuterCounter s"
  "swipeDownOffset (imageDidMove p ty s) = swipeDownOffset s"
  "horizontalWholeCounter (imageDidMove p ty s) = horizontalWholeCounter s"
  "verticalWholeCounter (imageDidMove p ty s) = verticalWholeCounter s"
  "isHorizontalWrap (imageDidMove p ty s) = isHorizontalWrap s"
  "longPressTimeout (imageDidMove p ty s) = longPressTimeout s"
  "zoomLastDistance (imageDidMove p ty s) = zoomLastDistance s"
  by (simp_all add: imageDidMove_def)

lemma trackMove_fields [simp]:
  "scale (trackMove g s) = scale s"
  "horizontalWholeOuterCounter (trackMove g s) = horizontalWholeOuterCounter s"
  "swipeDownOffset (trackMove g s) = swipeDownOffset s"
  "isHorizontalWrap (trackMove g s) = isHorizontalWrap s"
  "horizontalWholeCounter (trackMove g s)
     = horizontalWholeCounter s + stepDiff (lastPositionX s) (dx g)"
  "verticalWholeCounter (trackMove g s)
     = verticalWholeCounter s + stepDiff (lastPositionY s) (dy g)"
  by (simp_all add: trackMove_def Let_def)

lemma absorbOverflow_fields [simp]:
  "scale (snd (absorbOverflow p diffX s)) = scale s"
  "swipeDownOffset (snd (absorbOverflow p diffX s)) = swipeDownOffset s"
  "isHorizontalWrap (snd (absorbOverflow p diffX s)) = isHorizontalWrap s"
  "horizontalWholeCounter (snd (absorbOverflow p diffX s)) = horizontalWholeCounter s"
  "verticalWholeCounter (snd (absorbOverflow p diffX s)) = verticalWholeCounter s"
  "longPressTimeout (snd (absorbOverflow p diffX s)) = longPressTimeout s"
  by (simp_all add: absorbOverflow_def Let_def)

lemma dragHorizontal_fields:
  assumes "dragHorizontal p diffX s = Some s'"
  shows "scale s' = scale s" "swipeDownOffset s' = swipeDownOffset s"
    "isHorizontalWrap s' = isHorizontalWrap s"
    "horizontalWholeCounter s' = horizontalWholeCounter s"
    "verticalWholeCounter s' = verticalWholeCounter s"
    "longPressTimeout s' = longPressTimeout s"
  using assms
  by (auto simp: dragHorizontal_def Let_def split: option.splits if_splits)

lemma limitOverflow_fields [simp]:
  "scale (limitOverflow p s) = scale s"
  "swipeDownOffset (limitOverflow p s) = swipeDownOffset s"
  "isHorizontalWrap (limitOverflow p s) = isHorizontalWrap s"
  "horizontalWholeCounter (limitOverflow p s) = horizontalWholeCounter s"
  "verticalWholeCounter (limitOverflow p s) = verticalWholeCounter s"
  "longPressTimeout (limitOverflow p s) = longPressTimeout s"
  by (simp_all add: limitOverflow_def)

lemma panHorizontal_fields:
  assumes "panHorizontal p diffX diffY s = Some s'"
  shows "scale s' = scale s" "swipeDownOffset s' = swipeDownOffset s"
    "isHorizontalWrap s' = (isHorizontalWrap s \<or> \<bar>diffX\<bar> > \<bar>diffY\<bar>)"
    "horizontalWholeCounter s' = horizontalWholeCounter s"
    "verticalWholeCounter s' = verticalWholeCounter s"
    "longPressTimeout s' = longPressTimeout s"
proof -
  define s1 where "s1 = (if \<bar>diffX\<bar> > \<bar>diffY\<bar> then s\<lparr>isHorizontalWrap := True\<rparr> else s)"
  define r where "r = (if imageWidth p * scale s1 > cropWidth p
               then (case absorbOverflow p diffX s1 of (diffX', s2) \<Rightarrow> dragHorizontal p diffX' s2)
               else Some (s1\<lparr>horizontalWholeOuterCounter :=
                                horizontalWholeOuterCounter s1 + diffX\<rparr>))"
  from assms obtain s3 where r: "r = Some s3"
    and s': "s' = (let s4 = limitOverflow p s3
              in (if horizontalWholeOuterCounter s4 \<noteq> 0 \<and> horizontalOuterRangeOffset p
                       then emit (CallHorizontalOuterRangeOffset (horizontalWholeOuterCounter s4)) s4
                       else s4))"
    unfolding panHorizontal_def s1_def[symmetric] Let_def r_def[symmetric]
    by (auto split: option.splits simp: Let_def)
  have s3: "scale s3 = scale s1 \<and> swipeDownOffset s3 = swipeDownOffset s1
      \<and> isHorizontalWrap s3 = isHorizontalWrap s1
      \<and> horizontalWholeCounter s3 = horizontalWholeCounter s1
      \<and> verticalWholeCounter s3 = verticalWholeCounter s1
      \<and> longPressTimeout s3 = longPressTimeout s1"
  proof (cases "imageWidth p * scale s1 > cropWidth p")
    case True
    then have "dragHorizontal p (fst (absorbOverflow p diffX s1)) (snd (absorbOverflow p diffX s1))
                 = Some s3"
      using r by (simp add: r_def split: prod.splits)
    from dragHorizontal_fields[OF this] show ?thesis by simp
  next
    case False
    then show ?thesis using r by (auto simp: r_def)
  qed
  have s1: "scale s1 = scale s \<and> swipeDownOffset s1 = swipeDownOffset s
      \<and> isHorizontalWrap s1 = (isHorizontalWrap s \<or> \<bar>diffX\<bar> > \<bar>diffY\<bar>)
      \<and> horizontalWholeCounter s1 = horizontalWholeCounter s
      \<and> verticalWholeCounter s1 = verticalWholeCounter s
      \<and> longPressTimeout s1 = longPressTimeout s"
    by (simp add: s1_def)
  show "scale s' = scale s" "swipeDownOffset s' = swipeDownOffset s"
    "isHorizontalWrap s' = (isHorizontalWrap s \<or> \<bar>diffX\<bar> > \<bar>diffY\<bar>)"
    "horizontalWholeCounter s' = horizontalWholeCounter s"
    "verticalWholeCounter s' = verticalWholeCounter s"
    "longPressTimeout s' = longPressTimeout s"
    using s3 s1 by (simp_all add: s' Let_def)
qed

lemma panVertical_fields:
  assumes "panVertical p diffY s = Some s'"
  shows "horizontalWholeOuterCounter s' = horizontalWholeOuterCounter s"
    "isHorizontalWrap s' = isHorizontalWrap s"
    "horizontalWholeCounter s' = horizontalWholeCounter s"
    "verticalWholeCounter s' = verticalWholeCounter s"
    "longPressTimeout s' = longPressTimeout s"
  using assms
  by (auto simp: panVertical_def Let_def split: option.splits if_splits)

lemma panVertical_swipeDown:
  assumes "panVertical p diffY s = Some s'"
    and "swipeDownOffset s' \<noteq> swipeDownOffset s"
  shows "enableSwipeDown p \<and> imageHeight p * scale s \<le> cropHeight p \<and> \<not> isHorizontalWrap s
           \<and> swipeDownOffset s' = swipeDownOffset s + diffY"
  using assms
  by (auto simp: panVertical_def Let_def split: option.splits if_splits)

lemma moveMulti_fields:
  assumes "moveMulti p t0 t1 s = Some s'"
  shows "horizontalWholeOuterCounter s' = horizontalWholeOuterCounter s"
    "swipeDownOffset s' = swipeDownOffset s"
    "isHorizontalWrap s' = isHorizontalWrap s"
  using assms
  by (auto simp: moveMulti_def Let_def split: option.splits if_splits)

subsection \<open>Where a step stays inside the real numbers\<close>

lemma dragHorizontal_total: "scale s \<noteq> 0 \<Longrightarrow> dragHorizontal p diffX s \<noteq> None"
  by (simp add: dragHorizontal_def jsdiv_def Let_def)

lemma panHorizontal_total:
  assumes "scale s \<noteq> 0"
  shows "panHorizontal p diffX diffY s \<noteq> None"
proof -
  define s1 where "s1 = (if \<bar>diffX\<bar> > \<bar>diffY\<bar> then s\<lparr>isHorizontalWrap := True\<rparr> else s)"
  have "scale (snd (absorbOverflow p diffX s1)) \<noteq> 0"
    using assms by (simp add: s1_def)
  then obtain s3 where
    "dragHorizontal p (fst (absorbOverflow p diffX s1)) (snd (absorbOverflow p diffX s1)) = Some s3"
    using dragHorizontal_total by blast
  then show ?thesis
    unfolding panHorizontal_def s1_def[symmetric] Let_def by (auto split: prod.splits)
qed

lemma panVertical_total: "scale s \<noteq> 0 \<Longrightarrow> panVertical p diffY s \<noteq> None"
  by (simp add: panVertical_def jsdiv_def Let_def)

lemma moveSingle_total:
  assumes "scale s \<noteq> 0"
  shows "moveSingle p g s \<noteq> None"
proof -
  define diffX where "diffX = stepDiff (lastPositionX s) (dx g)"
  define diffY where "diffY = stepDiff (lastPositionY s) (dy g)"
  define s3 where "s3 = trackMove g s"
  have sc: "scale s3 \<noteq> 0" using assms by (simp add: s3_def)
  obtain s4 where h: "(if swipeDownOffset s3 = 0 then panHorizontal p diffX diffY s3 else Some s3)
                        = Some s4"
    using panHorizontal_total[OF sc, of p diffX diffY] by (cases "swipeDownOffset s3 = 0") auto
  then have "scale s4 = scale s3"
    by (auto split: if_splits dest: panHorizontal_fields(1))
  with sc have "panVertical p diffY s4 \<noteq> None" by (simp add: panVertical_total)
  with h show ?thesis
    unfolding moveSingle_def diffX_def[symmetric] diffY_def[symmetric] s3_def[symmetric] Let_def
    by simp
qed

subsection \<open>The bound on the horizontal overflow\<close>

lemma limitOverflow_bound:
  "0 \<le> or0 (maxOverflow p) \<Longrightarrow>
     \<bar>horizontalWholeOuterCounter (limitOverflow p s)\<bar> \<le> or0 (maxOverflow p)"
  by (auto simp: limitOverflow_def)

lemma panHorizontal_bound:
  assumes "0 \<le> or0 (maxOverflow p)" and "panHorizontal p diffX diffY s = Some s'"
  shows "\<bar>horizontalWholeOuterCounter s'\<bar> \<le> or0 (maxOverflow p)"
proof -
  from assms(2) obtain s3 where
    "s' = limitOverflow p s3
       \<or> s' = emit (CallHorizontalOuterRangeOffset
                     (horizontalWholeOuterCounter (limitOverflow p s3))) (limitOverflow p s3)"
    by (auto simp: panHorizontal_def Let_def split: option.splits if_splits)
  then have "horizontalWholeOuterCounter s' = horizontalWholeOuterCounter (limitOverflow p s3)"
    by auto
  with assms(1) show ?thesis by (simp add: limitOverflow_bound)
qed

lemma moveSingle_bound:
  assumes "0 \<le> or0 (maxOverflow p)"
    and "\<bar>horizontalWholeOuterCounter s\<bar> \<le> or0 (maxOverflow p)"
    and "moveSingle p g s = Some s'"
  shows "\<bar>horizontalWholeOuterCounter s'\<bar> \<le> or0 (maxOverflow p)"
  using assms
  by (auto simp: moveSingle_def Let_def split: option.splits if_splits
      dest!: panVertical_fields(1) dest: panHorizontal_bound)

lemma move_bound:
  assumes "0 \<le> or0 (maxOverflow p)"
    and "\<bar>horizontalWholeOuterCounter s\<bar> \<le> or0 (maxOverflow p)"
    and "onPanResponderMove p evt g s = Some s'"
  shows "\<bar>horizontalWholeOuterCounter s'\<bar> \<le> or0 (maxOverflow p)"
  using assms
  by (auto simp: onPanResponderMove_def
      split: option.splits if_splits list.splits
      dest: moveSingle_bound dest!: moveMulti_fields(1))

lemma settle_fields:
  "settleVertical p s = Some s' \<Longrightarrow>
     horizontalWholeOuterCounter s' = horizontalWholeOuterCounter s
     \<and> swipeDownOffset s' = swipeDownOffset s \<and> scale s' = scale s"
  "settleHorizontal p s = Some s' \<Longrightarrow>
     horizontalWholeOuterCounter s' = horizontalWholeOuterCounter s
     \<and> swipeDownOffset s' = swipeDownOffset s \<and> scale s' = scale s"
  by (auto simp: settleVertical_def settleHorizontal_def Let_def split: if_splits option.splits)

lemma settleFinish_counters:
  "horizontalWholeOuterCounter (settleFinish p s) = 0 \<and> swipeDownOffset (settleFinish p s) = 0"
  by (simp add: settleFinish_def Let_def)

lemma settle_total:
  "scale s \<noteq> 0 \<Longrightarrow> settleVertical p s \<noteq> None"
  "scale s \<noteq> 0 \<Longrightarrow> settleHorizontal p s \<noteq> None"
  by (simp_all add: settleVertical_def settleHorizontal_def jsdiv_def)

text \<open>The two outcomes of the settle.\<close>

lemma releaseResolve_cases:
  assumes "panResponderReleaseResolve p s = Some s'"
  obtains "isSwipeDown p s" and "s' = (if onSwipeDown p then emit CallOnSwipeDown s else s)"
  | s5 where "\<not> isSwipeDown p s" and "s' = settleFinish p s5"
  using assms
  by (auto simp: panResponderReleaseResolve_def Let_def split: option.splits if_splits)

lemma releaseResolve_total:
  assumes "scale s \<noteq> 0"
  shows "panResponderReleaseResolve p s \<noteq> None"
proof (cases "isSwipeDown p s")
  case True
  then show ?thesis by (simp add: panResponderReleaseResolve_def)
next
  case False
  define s3 where "s3 = (let s1 = (if enableCenterFocus p \<and> scale s < 1
                   then (let t = s\<lparr>scale := 1\<rparr> in emit (TimingStart AnimScale (scale t) 100) t)
                   else s);
             s2 = (if imageWidth p * scale s1 \<le> cropWidth p
                   then (let t = s1\<lparr>positionX := 0\<rparr>
                         in emit (TimingStart AnimPositionX (positionX t) 100) t)
                   else s1)
         in (if imageHeight p * scale s2 \<le> cropHeight p
                   then (let t = s2\<lparr>positionY := 0\<rparr>
                         in emit (TimingStart AnimPositionY (positionY t) 100) t)
                   else s2))"
  have sc: "scale s3 \<noteq> 0" using assms by (simp add: s3_def Let_def)
  then obtain s4 where s4: "settleVertical p s3 = Some s4"
    using settle_total(1) by blast
  then have "scale s4 \<noteq> 0" using sc settle_fields(1) by metis
  then obtain s5 where s5: "settleHorizontal p s4 = Some s5"
    using settle_total(2) by blast
  have "panResponderReleaseResolve p s = Some (settleFinish p s5)"
    using False s4 s5 unfolding panResponderReleaseResolve_def s3_def Let_def by simp
  then show ?thesis by simp
qed

lemma releaseResolve_bound:
  assumes "0 \<le> or0 (maxOverflow p)"
    and "\<bar>horizontalWholeOuterCounter s\<bar> \<le> or0 (maxOverflow p)"
    and "panResponderReleaseResolve p s = Some s'"
  shows "\<bar>horizontalWholeOuterCounter s'\<bar> \<le> or0 (maxOverflow p)"
  using assms(3)
proof (cases rule: releaseResolve_cases)
  case 1
  with assms(2) show ?thesis by simp
next
  case (2 s5)
  with assms(1) show ?thesis by (simp add: settleFinish_counters)
qed

text \<open>The four ways a release ends.\<close>

lemma release_cases:
  assumes "onPanResponderRelease p evt g s = Some s'"
  obtains "s' = s\<lparr>longPressTimeout := None\<rparr>"
  | "s' = s\<lparr>longPressTimeout := None, singleClickTimeout := Some (point evt)\<rparr>"
  | "panResponderReleaseResolve p (s\<lparr>longPressTimeout := None\<rparr>) = Some s'"
  | "panResponderReleaseResolve p
       (emit (CallResponderRelease (vx g) (scale s)) (s\<lparr>longPressTimeout := None\<rparr>)) = Some s'"
proof (cases "isDoubleClick s \<or> isLongPress s")
  case True
  with assms have "s' = s\<lparr>longPressTimeout := None\<rparr>"
    by (cases "isDoubleClick s") (simp_all add: onPanResponderRelease_def Let_def)
  then show ?thesis by (rule that(1))
next
  case False
  show ?thesis
  proof (cases "isClickRelease p evt g")
    case True
    with False assms
    have "s' = s\<lparr>longPressTimeout := None, singleClickTimeout := Some (point evt)\<rparr>"
      by (simp add: onPanResponderRelease_def Let_def)
    then show ?thesis by (rule that(2))
  next
    case click: False
    show ?thesis
    proof (cases "responderRelease p")
      case True
      with False click assms show ?thesis
        by (intro that(4)) (simp add: onPanResponderRelease_def Let_def)
    next
      case rr: False
      with False click assms show ?thesis
        by (intro that(3)) (simp add: onPanResponderRelease_def Let_def)
    qed
  qed
qed

lemma release_bound:
  assumes "0 \<le> or0 (maxOverflow p)"
    and "\<bar>horizontalWholeOuterCounter s\<bar> \<le> or0 (maxOverflow p)"
    and "onPanResponderRelease p evt g s = Some s'"
  shows "\<bar>horizontalWholeOuterCounter s'\<bar> \<le> or0 (maxOverflow p)"
  using assms(3)
proof (cases rule: release_cases)
  case 1 with assms(2) show ?thesis by simp
next
  case 2 with assms(2) show ?thesis by simp
next
  case 3
  show ?thesis
    by (rule releaseResolve_bound[OF assms(1) _ 3]) (use assms(2) in simp)
next
  case 4
  show ?thesis
    by (rule releaseResolve_bound[OF assms(1) _ 4]) (use assms(2) in simp)
qed

lemma grant_counters:
  "horizontalWholeOuterCounter (onPanResponderGrant p evt now s) = horizontalWholeOuterCounter s"
  "swipeDownOffset (onPanResponderGrant p evt now s) = swipeDownOffset s"
  by (simp_all add: onPanResponderGrant_def doubleClickZoom_def Let_def split: list.splits)

lemma others_counters:
  "horizontalWholeOuterCounter (longPressFire p s) = horizontalWholeOuterCounter s"
  "horizontalWholeOuterCounter (singleClickFire p s) = horizontalWholeOuterCounter s"
  "horizontalWholeOuterCounter (resetScale s) = horizontalWholeOuterCounter s"
  "horizontalWholeOuterCounter (reset s) = horizontalWholeOuterCounter s"
  "horizontalWholeOuterCounter (centerOn c s) = horizontalWholeOuterCounter s"
  "swipeDownOffset (longPressFire p s) = swipeDownOffset s"
  "swipeDownOffset (singleClickFire p s) = swipeDownOffset s"
  "swipeDownOffset (resetScale s) = swipeDownOffset s"
  "swipeDownOffset (reset s) = swipeDownOffset s"
  "swipeDownOffset (centerOn c s) = swipeDownOffset s"
  by (simp_all add: longPressFire_def singleClickFire_def resetScale_def reset_def centerOn_def
      Let_def split: option.splits)

lemma step_bound:
  assumes "0 \<le> or0 (maxOverflow p)"
    and "\<bar>horizontalWholeOuterCounter s\<bar> \<le> or0 (maxOverflow p)"
    and "step p i s = Some s'"
  shows "\<bar>horizontalWholeOuterCounter s'\<bar> \<le> or0 (maxOverflow p)"
proof (cases i)
  case (Move evt g)
  with assms show ?thesis by (auto dest: move_bound)
next
  case (Release evt g)
  with assms show ?thesis by (auto dest: release_bound)
next
  case ReleaseResolve
  with assms show ?thesis by (auto dest: releaseResolve_bound)
qed (use assms in \<open>auto simp: grant_counters others_counters\<close>)

lemma run_bound:
  assumes "0 \<le> or0 (maxOverflow p)"
  shows "\<bar>horizontalWholeOuterCounter s\<bar> \<le> or0 (maxOverflow p) \<Longrightarrow> run p ins s = Some s'
           \<Longrightarrow> \<bar>horizontalWholeOuterCounter s'\<bar> \<le> or0 (maxOverflow p)"
proof (induction ins arbitrary: s)
  case Nil
  then show ?case by simp
next
  case (Cons i ins)
  from Cons.prems(2) obtain s1 where s1: "step p i s = Some s1" and r: "run p ins s1 = Some s'"
    by (auto split: option.splits)
  from assms Cons.prems(1) s1 have "\<bar>horizontalWholeOuterCounter s1\<bar> \<le> or0 (maxOverflow p)"
    by (rule step_bound)
  then show ?case using r by (rule Cons.IH)
qed

subsection \<open>The swipe-down offset and the horizontal flag in a move\<close>

lemma moveSingle_swipeDown:
  assumes "moveSingle p g s = Some s'"
    and "swipeDownOffset s' \<noteq> swipeDownOffset s"
  shows "panToMove p \<and> enableSwipeDown p \<and> imageHeight p * scale s \<le> cropHeight p
           \<and> \<not> isHorizontalWrap s'
           \<and> swipeDownOffset s' = swipeDownOffset s + stepDiff (lastPositionY s) (dy g)"
proof -
  define diffX where "diffX = stepDiff (lastPositionX s) (dx g)"
  define diffY where "diffY = stepDiff (lastPositionY s) (dy g)"
  define s3 where "s3 = trackMove g s"
  have m: "moveSingle p g s =
     (if panToMove p
      then (case (if swipeDownOffset s3 = 0 then panHorizontal p diffX diffY s3 else Some s3) of
              None \<Rightarrow> None | Some s4 \<Rightarrow> panVertical p diffY s4)
      else Some s3)"
    unfolding moveSingle_def diffX_def diffY_def s3_def Let_def ..
  have pan: "panToMove p"
  proof (rule ccontr)
    assume "\<not> panToMove p"
    with assms(1) have "s' = s3" by (simp add: m)
    with assms(2) show False by (simp add: s3_def)
  qed
  with assms(1) obtain s4 where
    h: "(if swipeDownOffset s3 = 0 then panHorizontal p diffX diffY s3 else Some s3) = Some s4"
    and v: "panVertical p diffY s4 = Some s'"
    by (auto simp: m split: option.splits)
  from h have s4: "scale s4 = scale s \<and> swipeDownOffset s4 = swipeDownOffset s"
    by (auto simp: s3_def split: if_splits dest: panHorizontal_fields(1,2))
  with assms(2) have "swipeDownOffset s' \<noteq> swipeDownOffset s4" by simp
  with v have "enableSwipeDown p \<and> imageHeight p * scale s4 \<le> cropHeight p
      \<and> \<not> isHorizontalWrap s4 \<and> swipeDownOffset s' = swipeDownOffset s4 + diffY"
    by (rule panVertical_swipeDown)
  moreover from v have "isHorizontalWrap s' = isHorizontalWrap s4"
    by (rule panVertical_fields(2))
  ultimately show ?thesis using pan s4 by (simp add: diffY_def)
qed

lemma moveSingle_flags:
  assumes "moveSingle p g s = Some s'"
  shows "isHorizontalWrap s' =
           (isHorizontalWrap s \<or> (panToMove p \<and> swipeDownOffset s = 0
              \<and> \<bar>stepDiff (lastPositionX s) (dx g)\<bar> > \<bar>stepDiff (lastPositionY s) (dy g)\<bar>))"
    and "horizontalWholeCounter s' = horizontalWholeCounter s + stepDiff (lastPositionX s) (dx g)"
    and "verticalWholeCounter s' = verticalWholeCounter s + stepDiff (lastPositionY s) (dy g)"
    and "longPressTimeout s' = longPressTimeout (trackMove g s)"
proof -
  define diffX where "diffX = stepDiff (lastPositionX s) (dx g)"
  define diffY where "diffY = stepDiff (lastPositionY s) (dy g)"
  define s3 where "s3 = trackMove g s"
  have m: "moveSingle p g s =
     (if panToMove p
      then (case (if swipeDownOffset s3 = 0 then panHorizontal p diffX diffY s3 else Some s3) of
              None \<Rightarrow> None | Some s4 \<Rightarrow> panVertical p diffY s4)
      else Some s3)"
    unfolding moveSingle_def diffX_def diffY_def s3_def Let_def ..
  have "isHorizontalWrap s' =
           (isHorizontalWrap s \<or> (panToMove p \<and> swipeDownOffset s = 0 \<and> \<bar>diffX\<bar> > \<bar>diffY\<bar>))
        \<and> horizontalWholeCounter s' = horizontalWholeCounter s3
        \<and> verticalWholeCounter s' = verticalWholeCounter s3
        \<and> longPressTimeout s' = longPressTimeout s3"
  proof (cases "panToMove p")
    case False
    with assms have "s' = s3" by (simp add: m)
    with False show ?thesis by (simp add: s3_def)
  next
    case True
    with assms obtain s4 where
      h: "(if swipeDownOffset s3 = 0 then panHorizontal p diffX diffY s3 else Some s3) = Some s4"
      and v: "panVertical p diffY s4 = Some s'"
      by (auto simp: m split: option.splits)
    have "isHorizontalWrap s4 = (isHorizontalWrap s \<or> (swipeDownOffset s = 0 \<and> \<bar>diffX\<bar> > \<bar>diffY\<bar>))
        \<and> horizontalWholeCounter s4 = horizontalWholeCounter s3
        \<and> verticalWholeCounter s4 = verticalWholeCounter s3
        \<and> longPressTimeout s4 = longPressTimeout s3"
    proof (cases "swipeDownOffset s3 = 0")
      case z: True
      with h have "panHorizontal p diffX diffY s3 = Some s4" by simp
      from panHorizontal_fields(3-6)[OF this] z show ?thesis by (simp add: s3_def)
    next
      case nz: False
      with h have "s4 = s3" by simp
      with nz show ?thesis by (simp add: s3_def)
    qed
    with panVertical_fields(2-5)[OF v] True show ?thesis by simp
  qed
  then show "isHorizontalWrap s' =
           (isHorizontalWrap s \<or> (panToMove p \<and> swipeDownOffset s = 0
              \<and> \<bar>stepDiff (lastPositionX s) (dx g)\<bar> > \<bar>stepDiff (lastPositionY s) (dy g)\<bar>))"
    and "horizontalWholeCounter s' = horizontalWholeCounter s + stepDiff (lastPositionX s) (dx g)"
    and "verticalWholeCounter s' = verticalWholeCounter s + stepDiff (lastPositionY s) (dy g)"
    and "longPressTimeout s' = longPressTimeout (trackMove g s)"
    by (simp_all add: diffX_def diffY_def s3_def)
qed

lemma trackMove_longPress:
  "\<bar>horizontalWholeCounter (trackMove g s)\<bar> > 5 \<or> \<bar>verticalWholeCounter (trackMove g s)\<bar> > 5
     \<Longrightarrow> longPressTimeout (trackMove g s) = None"
  "\<not> (\<bar>horizontalWholeCounter (trackMove g s)\<bar> > 5 \<or> \<bar>verticalWholeCounter (trackMove g s)\<bar> > 5)
     \<Longrightarrow> longPressTimeout (trackMove g s) = longPressTimeout s"
  by (auto simp: trackMove_def Let_def)

subsection \<open>The recorded span and the double-click flag\<close>

text \<open>
  Only the gesture start and the pinch write \<open>zoomLastDistance\<close>, and only the gesture
  start writes \<open>isDoubleClick\<close>; so a span is recorded only outside a double click and
  with pinch enabled.
\<close>

lemma small_steps_span [simp]:
  "zoomLastDistance (trackMove g s) = zoomLastDistance s"
  "isDoubleClick (trackMove g s) = isDoubleClick s"
  "zoomLastDistance (snd (absorbOverflow p diffX s)) = zoomLastDistance s"
  "isDoubleClick (snd (absorbOverflow p diffX s)) = isDoubleClick s"
  "zoomLastDistance (limitOverflow p s) = zoomLastDistance s"
  "isDoubleClick (limitOverflow p s) = isDoubleClick s"
  "isDoubleClick (emit e s) = isDoubleClick s"
  "isDoubleClick (imageDidMove p ty s) = isDoubleClick s"
  "zoomLastDistance (settleFinish p s) = zoomLastDistance s"
  "isDoubleClick (settleFinish p s) = isDoubleClick s"
  by (simp_all add: trackMove_def absorbOverflow_def limitOverflow_def emit_def imageDidMove_def
      settleFinish_def Let_def)

lemma dragHorizontal_span:
  "dragHorizontal p diffX s = Some s' \<Longrightarrow>
     zoomLastDistance s' = zoomLastDistance s \<and> isDoubleClick s' = isDoubleClick s"
  by (auto simp: dragHorizontal_def Let_def split: option.splits if_splits)

lemma panHorizontal_span:
  assumes "panHorizontal p diffX diffY s = Some s'"
  shows "zoomLastDistance s' = zoomLastDistance s \<and> isDoubleClick s' = isDoubleClick s"
proof -
  define s1 where "s1 = (if \<bar>diffX\<bar> > \<bar>diffY\<bar> then s\<lparr>isHorizontalWrap := True\<rparr> else s)"
  define r where "r = (if imageWidth p * scale s1 > cropWidth p
               then (case absorbOverflow p diffX s1 of (diffX', s2) \<Rightarrow> dragHorizontal p diffX' s2)
               else Some (s1\<lparr>horizontalWholeOuterCounter :=
                                horizontalWholeOuterCounter s1 + diffX\<rparr>))"
  from assms obtain s3 where r: "r = Some s3"
    and s': "s' = (let s4 = limitOverflow p s3
              in (if horizontalWholeOuterCounter s4 \<noteq> 0 \<and> horizontalOuterRangeOffset p
                       then emit (CallHorizontalOuterRangeOffset (horizontalWholeOuterCounter s4)) s4
                       else s4))"
    unfolding panHorizontal_def s1_def[symmetric] Let_def r_def[symmetric]
    by (auto split: option.splits simp: Let_def)
  have "zoomLastDistance s3 = zoomLastDistance s1 \<and> isDoubleClick s3 = isDoubleClick s1"
  proof (cases "imageWidth p * scale s1 > cropWidth p")
    case True
    then have "dragHorizontal p (fst (absorbOverflow p diffX s1)) (snd (absorbOverflow p diffX s1))
                 = Some s3"
      using r by (simp add: r_def split: prod.splits)
    from dragHorizontal_span[OF this] show ?thesis by simp
  next
    case False
    then show ?thesis using r by (auto simp: r_def)
  qed
  then show ?thesis by (simp add: s' s1_def Let_def)
qed

lemma panVertical_span:
  "panVertical p diffY s = Some s' \<Longrightarrow>
     zoomLastDistance s' = zoomLastDistance s \<and> isDoubleClick s' = isDoubleClick s"
  by (auto simp: panVertical_def Let_def split: option.splits if_splits)

lemma moveSingle_span:
  assumes "moveSingle p g s = Some s'"
  shows "zoomLastDistance s' = zoomLastDistance s \<and> isDoubleClick s' = isDoubleClick s"
proof -
  define diffX where "diffX = stepDiff (lastPositionX s) (dx g)"
  define diffY where "diffY = stepDiff (lastPositionY s) (dy g)"
  define s3 where "s3 = trackMove g s"
  have m: "moveSingle p g s =
     (if panToMove p
      then (case (if swipeDownOffset s3 = 0 then panHorizontal p diffX diffY s3 else Some s3) of
              None \<Rightarrow> None | Some s4 \<Rightarrow> panVertical p diffY s4)
      else Some s3)"
    unfolding moveSingle_def diffX_def diffY_def s3_def Let_def ..
  show ?thesis
  proof (cases "panToMove p")
    case False
    with assms have "s' = s3" by (simp add: m)
    then show ?thesis by (simp add: s3_def)
  next
    case True
    with assms obtain s4 where
      h: "(if swipeDownOffset s3 = 0 then panHorizontal p diffX diffY s3 else Some s3) = Some s4"
      and v: "panVertical p diffY s4 = Some s'"
      by (auto simp: m split: option.splits)
    from h have "zoomLastDistance s4 = zoomLastDistance s \<and> isDoubleClick s4 = isDoubleClick s"
      by (auto simp: s3_def split: if_splits dest: panHorizontal_span)
    with panVertical_span[OF v] show ?thesis by simp
  qed
qed

lemma moveMulti_span:
  assumes "moveMulti p t0 t1 s = Some s'"
  shows "isDoubleClick s' = isDoubleClick s"
    and "zoomLastDistance s' \<noteq> zoomLastDistance s \<Longrightarrow> pinchToZoom p"
  using assms
  by (auto simp: moveMulti_def Let_def split: option.splits if_splits)

lemma move_span:
  assumes "onPanResponderMove p evt g s = Some s'"
    and "zoomLastDistance s \<noteq> None \<longrightarrow> \<not> isDoubleClick s \<and> pinchToZoom p"
  shows "zoomLastDistance s' \<noteq> None \<longrightarrow> \<not> isDoubleClick s' \<and> pinchToZoom p"
proof (cases "isDoubleClick s")
  case True
  with assms show ?thesis by (simp add: onPanResponderMove_def)
next
  case False
  show ?thesis
  proof (cases "touches evt")
    case Nil
    with assms(1) False obtain s1 where m: "moveSingle p g s = Some s1"
      and s': "s' = imageDidMove p ''onPanResponderMove'' s1"
      by (auto simp: onPanResponderMove_def split: option.splits)
    from moveSingle_span[OF m] assms(2) show ?thesis by (simp add: s')
  next
    case (Cons t1 ts)
    with assms(1) False obtain s1 where m: "moveMulti p (touch0 evt) t1 s = Some s1"
      and s': "s' = imageDidMove p ''onPanResponderMove'' s1"
      by (auto simp: onPanResponderMove_def split: option.splits)
    from moveMulti_span[OF m] assms(2) False show ?thesis by (auto simp: s')
  qed
qed

lemma settle_span:
  "settleVertical p s = Some s' \<Longrightarrow>
     zoomLastDistance s' = zoomLastDistance s \<and> isDoubleClick s' = isDoubleClick s"
  "settleHorizontal p s = Some s' \<Longrightarrow>
     zoomLastDistance s' = zoomLastDistance s \<and> isDoubleClick s' = isDoubleClick s"
  by (auto simp: settleVertical_def settleHorizontal_def Let_def split: if_splits option.splits)

lemma releaseResolve_span:
  assumes "panResponderReleaseResolve p s = Some s'"
  shows "zoomLastDistance s' = zoomLastDistance s \<and> isDoubleClick s' = isDoubleClick s"
proof (cases "isSwipeDown p s")
  case True
  with assms show ?thesis by (cases "onSwipeDown p") (auto simp: panResponderReleaseResolve_def)
next
  case False
  define s3 where "s3 = (let s1 = (if enableCenterFocus p \<and> scale s < 1
                   then (let t = s\<lparr>scale := 1\<rparr> in emit (TimingStart AnimScale (scale t) 100) t)
                   else s);
             s2 = (if imageWidth p * scale s1 \<le> cropWidth p
                   then (let t = s1\<lparr>positionX := 0\<rparr>
                         in emit (TimingStart AnimPositionX (positionX t) 100) t)
                   else s1)
         in (if imageHeight p * scale s2 \<le> cropHeight p
                   then (let t = s2\<lparr>positionY := 0\<rparr>
                         in emit (TimingStart AnimPositionY (positionY t) 100) t)
                   else s2))"
  have e3: "zoomLastDistance s3 = zoomLastDistance s \<and> isDoubleClick s3 = isDoubleClick s"
    by (simp add: s3_def Let_def)
  from assms False obtain s4 s5 where s4: "settleVertical p s3 = Some s4"
    and s5: "settleHorizontal p s4 = Some s5" and s': "s' = settleFinish p s5"
    unfolding panResponderReleaseResolve_def s3_def Let_def
    by (auto split: option.splits)
  from e3 settle_span(1)[OF s4] settle_span(2)[OF s5] show ?thesis by (simp add: s')
qed

lemma release_span:
  assumes "onPanResponderRelease p evt g s = Some s'"
  shows "zoomLastDistance s' = zoomLastDistance s \<and> isDoubleClick s' = isDoubleClick s"
  using assms
proof (cases rule: release_cases)
  case 3
  from releaseResolve_span[OF this] show ?thesis by simp
next
  case 4
  from releaseResolve_span[OF this] show ?thesis by simp
qed simp_all

lemma grant_span: "zoomLastDistance (onPanResponderGrant p evt now s) = None"
  by (simp add: onPanResponderGrant_def doubleClickZoom_def Let_def split: list.splits)

lemma others_span:
  "zoomLastDistance (longPressFire p s) = zoomLastDistance s"
  "zoomLastDistance (singleClickFire p s) = zoomLastDistance s"
  "zoomLastDistance (resetScale s) = zoomLastDistance s"
  "zoomLastDistance (reset s) = zoomLastDistance s"
  "zoomLastDistance (centerOn c s) = zoomLastDistance s"
  "isDoubleClick (longPressFire p s) = isDoubleClick s"
  "isDoubleClick (singleClickFire p s) = isDoubleClick s"
  "isDoubleClick (resetScale s) = isDoubleClick s"
  "isDoubleClick (reset s) = isDoubleClick s"
  "isDoubleClick (centerOn c s) = isDoubleClick s"
  by (simp_all add: longPressFire_def singleClickFire_def resetScale_def reset_def centerOn_def
      Let_def split: option.splits)

lemma step_span:
  assumes "step p i s = Some s'"
    and "zoomLastDistance s \<noteq> None \<longrightarrow> \<not> isDoubleClick s \<and> pinchToZoom p"
  shows "zoomLastDistance s' \<noteq> None \<longrightarrow> \<not> isDoubleClick s' \<and> pinchToZoom p"
proof (cases i)
  case (Move evt g)
  with assms show ?thesis by (auto dest: move_span)
next
  case (Release evt g)
  with assms(1) have "onPanResponderRelease p evt g s = Some s'" by simp
  from release_span[OF this] assms(2) show ?thesis by simp
next
  case ReleaseResolve
  with assms(1) have "panResponderReleaseResolve p s = Some s'" by simp
  from releaseResolve_span[OF this] assms(2) show ?thesis by simp
qed (use assms in \<open>auto simp: grant_span others_span\<close>)

lemma run_span:
  "run p ins s = Some s' \<Longrightarrow>
   (zoomLastDistance s \<noteq> None \<longrightarrow> \<not> isDoubleClick s \<and> pinchToZoom p) \<Longrightarrow>
   zoomLastDistance s' \<noteq> None \<longrightarrow> \<not> isDoubleClick s' \<and> pinchToZoom p"
proof (induction ins arbitrary: s)
  case Nil
  then show ?case by simp
next
  case (Cons i ins)
  from Cons.prems(1) obtain s1 where s1: "step p i s = Some s1" and r: "run p ins s1 = Some s'"
    by (auto split: option.splits)
  from s1 Cons.prems(2)
  have "zoomLastDistance s1 \<noteq> None \<longrightarrow> \<not> isDoubleClick s1 \<and> pinchToZoom p"
    by (rule step_span)
  with r show ?case by (rule Cons.IH)
qed

lemma recorded_span:
  assumes "run p ins initial = Some s" and "zoomLastDistance s = Some d"
  shows "\<not> isDoubleClick s" and "pinchToZoom p"
  using run_span[OF assms(1)] assms(2) by (simp_all add: initial_def)

section \<open>The claims\<close>

subsection \<open>C1: the overflow counters after the release settle\<close>

text \<open>
  C1, as stated: after every \<open>panResponderReleaseResolve\<close> both overflow counters are 0,
  also when the swipe-down branch fired. It fails: a drag of 250 downwards passes the
  threshold of 230, the release takes the swipe-down branch, which returns before the
  resets, and \<open>swipeDownOffset\<close> is still 250 afterwards.
\<close>

theorem releaseResolve_swipeDown_keeps_offset:
  "run exampleProps (dragGesture 0 250 @ [releaseAfter 0 250]) initial \<noteq> None
   \<and> swipeDownOffset (stateAfter exampleProps (dragGesture 0 250 @ [releaseAfter 0 250])) = 250
   \<and> CallOnSwipeDown \<in> set (effects (stateAfter exampleProps
                                          (dragGesture 0 250 @ [releaseAfter 0 250])))"
  by (simp add: ex_defs op_defs)

text \<open>
  C1, amended: \<open>panResponderReleaseResolve\<close> returns a state whenever the scale is not
  zero; when the swipe down is not recognised, both overflow counters are 0 afterwards;
  when it is recognised, both counters keep their values.
\<close>

theorem releaseResolve_counters:
  "(scale s \<noteq> 0 \<longrightarrow> panResponderReleaseResolve p s \<noteq> None)
   \<and> (\<forall>s'. panResponderReleaseResolve p s = Some s' \<longrightarrow>
         (if isSwipeDown p s
          then horizontalWholeOuterCounter s' = horizontalWholeOuterCounter s
                 \<and> swipeDownOffset s' = swipeDownOffset s
          else horizontalWholeOuterCounter s' = 0 \<and> swipeDownOffset s' = 0))"
proof (intro conjI allI impI)
  assume "scale s \<noteq> 0"
  then show "panResponderReleaseResolve p s \<noteq> None" by (rule releaseResolve_total)
next
  fix s' assume "panResponderReleaseResolve p s = Some s'"
  then show "if isSwipeDown p s
          then horizontalWholeOuterCounter s' = horizontalWholeOuterCounter s
                 \<and> swipeDownOffset s' = swipeDownOffset s
          else horizontalWholeOuterCounter s' = 0 \<and> swipeDownOffset s' = 0"
    by (cases rule: releaseResolve_cases) (simp_all add: settleFinish_counters)
qed

text \<open>
  A drag by \<open>(3, 5)\<close> leaves 3 in the horizontal counter and 5 in the swipe-down offset;
  the settle of that state clears both.
\<close>

theorem releaseResolve_counters_witness:
  "horizontalWholeOuterCounter (stateAfter exampleProps (dragGesture 3 5)) = 3
   \<and> swipeDownOffset (stateAfter exampleProps (dragGesture 3 5)) = 5
   \<and> \<not> isSwipeDown exampleProps (stateAfter exampleProps (dragGesture 3 5))
   \<and> map_option horizontalWholeOuterCounter
        (panResponderReleaseResolve exampleProps (stateAfter exampleProps (dragGesture 3 5)))
       = Some 0
   \<and> map_option swipeDownOffset
        (panResponderReleaseResolve exampleProps (stateAfter exampleProps (dragGesture 3 5)))
       = Some 0"
  using releaseResolve_counters [of "stateAfter exampleProps (dragGesture 3 5)" exampleProps]
  by (simp add: ex_defs op_defs)

subsection \<open>C7: the overflow counters at gesture start\<close>

text \<open>
  C7, as stated: \<open>onPanResponderGrant\<close> resets both overflow counters to 0. It fails: a
  drag by 3 to the right, released as a click (less than \<open>clickDistance\<close>), is not settled,
  and the next gesture starts with 3 in the horizontal counter; the same drag downwards
  leaves 3 in the swipe-down offset of the next gesture.
\<close>

theorem grant_keeps_overflow_of_click:
  "run exampleProps (dragGesture 3 0 @ [releaseAfter 3 0, Grant (oneTouch 150 150) 5000]) initial
     \<noteq> None
   \<and> horizontalWholeOuterCounter
       (stateAfter exampleProps
          (dragGesture 3 0 @ [releaseAfter 3 0, Grant (oneTouch 150 150) 5000])) = 3
   \<and> run exampleProps (dragGesture 0 3 @ [releaseAfter 0 3, Grant (oneTouch 150 150) 5000]) initial
     \<noteq> None
   \<and> swipeDownOffset
       (stateAfter exampleProps
          (dragGesture 0 3 @ [releaseAfter 0 3, Grant (oneTouch 150 150) 5000])) = 3"
  by (simp add: ex_defs op_defs)

text \<open>
  C7, amended: \<open>onPanResponderGrant\<close> sets the two totals of the gesture,
  \<open>horizontalWholeCounter\<close> and \<open>verticalWholeCounter\<close>, to 0 and leaves the two overflow
  counters, \<open>horizontalWholeOuterCounter\<close> and \<open>swipeDownOffset\<close>, as they are.
\<close>

theorem grant_counters_frame:
  "horizontalWholeCounter (onPanResponderGrant p evt now s) = 0
   \<and> verticalWholeCounter (onPanResponderGrant p evt now s) = 0
   \<and> horizontalWholeOuterCounter (onPanResponderGrant p evt now s) = horizontalWholeOuterCounter s
   \<and> swipeDownOffset (onPanResponderGrant p evt now s) = swipeDownOffset s"
  by (simp add: onPanResponderGrant_def doubleClickZoom_def Let_def split: list.splits)

subsection \<open>C6: the bound on the horizontal overflow\<close>

text \<open>
  C6: with a limit \<^verbatim>\<open>maxOverflow || 0\<close> that is not negative, in every state the component
  reaches from its initial state a single-touch move returns a state whenever the scale is
  not zero, and the state it returns has \<open>\<bar>horizontalWholeOuterCounter\<bar>\<close> at most the limit:
  the limit is applied after the nudge of the hard clamp, and a move that does not enter
  the horizontal branch leaves the counter as it was.
\<close>

theorem overflow_bounded:
  assumes "0 \<le> or0 (maxOverflow p)"
    and "run p ins initial = Some s"
    and "touches evt = []"
  shows "(scale s \<noteq> 0 \<longrightarrow> onPanResponderMove p evt g s \<noteq> None)
         \<and> (\<forall>s'. onPanResponderMove p evt g s = Some s'
               \<longrightarrow> \<bar>horizontalWholeOuterCounter s'\<bar> \<le> or0 (maxOverflow p))"
proof (intro conjI allI impI)
  assume "scale s \<noteq> 0"
  then have "moveSingle p g s \<noteq> None" by (rule moveSingle_total)
  with assms(3) show "onPanResponderMove p evt g s \<noteq> None"
    by (auto simp: onPanResponderMove_def)
next
  fix s' assume m: "onPanResponderMove p evt g s = Some s'"
  have "\<bar>horizontalWholeOuterCounter initial\<bar> \<le> or0 (maxOverflow p)"
    using assms(1) by (simp add: initial_def)
  with assms(1) have "\<bar>horizontalWholeOuterCounter s\<bar> \<le> or0 (maxOverflow p)"
    using assms(2) by (rule run_bound)
  with assms(1) show "\<bar>horizontalWholeOuterCounter s'\<bar> \<le> or0 (maxOverflow p)"
    using m by (rule move_bound)
qed

text \<open>
  The image at scale 2, twice as wide as its box, dragged 400 to the right and then 400
  further: the first move hits the hard clamp and nudges the counter to \<open>1 / 10 ^ 10\<close>, the
  second one adds 400 and the nudge, and the counter ends at the limit of 100.
\<close>

theorem overflow_bounded_witness:
  "0 \<le> or0 (maxOverflow exampleProps)
   \<and> run exampleProps
        (CenterOn \<lparr>co_x = 0, co_y = 0, co_scale = 2, co_duration = None\<rparr> # dragGesture 400 0)
        initial
       = Some (stateAfter exampleProps
                 (CenterOn \<lparr>co_x = 0, co_y = 0, co_scale = 2, co_duration = None\<rparr>
                    # dragGesture 400 0))
   \<and> horizontalWholeOuterCounter
        (stateAfter exampleProps
           (CenterOn \<lparr>co_x = 0, co_y = 0, co_scale = 2, co_duration = None\<rparr>
              # dragGesture 400 0)) = 1 / 10 ^ 10
   \<and> map_option horizontalWholeOuterCounter
        (onPanResponderMove exampleProps (oneTouch 950 150) (drag 800 0)
           (stateAfter exampleProps
              (CenterOn \<lparr>co_x = 0, co_y = 0, co_scale = 2, co_duration = None\<rparr>
                 # dragGesture 400 0))) = Some 100
   \<and> \<bar>100 :: real\<bar> \<le> or0 (maxOverflow exampleProps)"
  using overflow_bounded [of exampleProps
      "CenterOn \<lparr>co_x = 0, co_y = 0, co_scale = 2, co_duration = None\<rparr> # dragGesture 400 0"
      "stateAfter exampleProps
         (CenterOn \<lparr>co_x = 0, co_y = 0, co_scale = 2, co_duration = None\<rparr> # dragGesture 400 0)"
      "oneTouch 950 150" "drag 800 0"]
  by (simp add: ex_defs op_defs centerOn_def)

subsection \<open>C2: when the swipe down fires\<close>

lemma emitted_append: "effects s' = effects s @ new \<Longrightarrow> emitted s s' = new"
  by (simp add: emitted_def)

text \<open>The settle without the swipe down only starts tweens and notifies the move.\<close>

lemma settleVertical_effects:
  "settleVertical p s = Some s' \<Longrightarrow>
     \<exists>new. effects s' = effects s @ new \<and> CallOnSwipeDown \<notin> set new"
  by (auto simp: settleVertical_def Let_def split: if_splits option.splits)

lemma settleHorizontal_effects:
  "settleHorizontal p s = Some s' \<Longrightarrow>
     \<exists>new. effects s' = effects s @ new \<and> CallOnSwipeDown \<notin> set new"
  by (auto simp: settleHorizontal_def Let_def split: if_splits option.splits)

lemma settleFinish_effects:
  "\<exists>new. effects (settleFinish p s) = effects s @ new \<and> CallOnSwipeDown \<notin> set new"
  by (simp add: settleFinish_def imageDidMove_def Let_def)

lemma releaseResolve_effects:
  assumes "\<not> isSwipeDown p s" and "panResponderReleaseResolve p s = Some s'"
  shows "\<exists>new. effects s' = effects s @ new \<and> CallOnSwipeDown \<notin> set new"
proof -
  define s3 where "s3 = (let s1 = (if enableCenterFocus p \<and> scale s < 1
                   then (let t = s\<lparr>scale := 1\<rparr> in emit (TimingStart AnimScale (scale t) 100) t)
                   else s);
             s2 = (if imageWidth p * scale s1 \<le> cropWidth p
                   then (let t = s1\<lparr>positionX := 0\<rparr>
                         in emit (TimingStart AnimPositionX (positionX t) 100) t)
                   else s1)
         in (if imageHeight p * scale s2 \<le> cropHeight p
                   then (let t = s2\<lparr>positionY := 0\<rparr>
                         in emit (TimingStart AnimPositionY (positionY t) 100) t)
                   else s2))"
  have e3: "\<exists>new. effects s3 = effects s @ new \<and> CallOnSwipeDown \<notin> set new"
    by (simp add: s3_def Let_def)
  from assms obtain s4 s5 where s4: "settleVertical p s3 = Some s4"
    and s5: "settleHorizontal p s4 = Some s5" and s': "s' = settleFinish p s5"
    unfolding panResponderReleaseResolve_def s3_def Let_def
    by (auto split: option.splits)
  from e3 settleVertical_effects[OF s4] settleHorizontal_effects[OF s5]
    settleFinish_effects[of p s5]
  show ?thesis unfolding s' by fastforce
qed


lemma releaseResolve_swipeDown:
  "panResponderReleaseResolve p s = Some s' \<Longrightarrow>
     swipeDownOffset s' = swipeDownOffset s \<or> swipeDownOffset s' = 0"
  by (erule releaseResolve_cases) (simp_all add: settleFinish_counters)

lemma release_swipeDown:
  assumes "onPanResponderRelease p evt g s = Some s'"
  shows "swipeDownOffset s' = swipeDownOffset s \<or> swipeDownOffset s' = 0"
  using assms
proof (cases rule: release_cases)
  case 3
  from releaseResolve_swipeDown[OF this] show ?thesis by simp
next
  case 4
  from releaseResolve_swipeDown[OF this] show ?thesis by simp
qed simp_all

lemma move_swipeDown:
  assumes "onPanResponderMove p evt g s = Some s'"
    and "swipeDownOffset s' \<noteq> swipeDownOffset s"
  shows "touches evt = [] \<and> \<not> isDoubleClick s \<and> panToMove p \<and> enableSwipeDown p
           \<and> imageHeight p * scale s \<le> cropHeight p \<and> \<not> isHorizontalWrap s'
           \<and> swipeDownOffset s' = swipeDownOffset s + stepDiff (lastPositionY s) (dy g)"
proof -
  from assms have nd: "\<not> isDoubleClick s"
    by (auto simp: onPanResponderMove_def)
  show ?thesis
  proof (cases "touches evt")
    case Nil
    with assms(1) nd obtain s1 where m: "moveSingle p g s = Some s1"
      and s': "s' = imageDidMove p ''onPanResponderMove'' s1"
      by (auto simp: onPanResponderMove_def split: option.splits)
    from assms(2) have "swipeDownOffset s1 \<noteq> swipeDownOffset s" by (simp add: s')
    with m have "panToMove p \<and> enableSwipeDown p \<and> imageHeight p * scale s \<le> cropHeight p
           \<and> \<not> isHorizontalWrap s1
           \<and> swipeDownOffset s1 = swipeDownOffset s + stepDiff (lastPositionY s) (dy g)"
      by (rule moveSingle_swipeDown)
    with Nil nd show ?thesis by (simp add: s')
  next
    case (Cons t1 ts)
    with assms(1) nd obtain s1 where m: "moveMulti p (touch0 evt) t1 s = Some s1"
      and s': "s' = imageDidMove p ''onPanResponderMove'' s1"
      by (auto simp: onPanResponderMove_def split: option.splits)
    from moveMulti_fields(2)[OF m] assms(2) show ?thesis by (simp add: s')
  qed
qed

text \<open>
  C2, as stated: at release \<open>onSwipeDown\<close> fires if and only if \<open>swipeDownOffset\<close> exceeds
  the configured threshold. It fails for a threshold of 0: after a drag of 250 downwards
  the offset is 250, above the threshold, and the release settles the image without
  invoking \<open>onSwipeDown\<close>, because the guard also asks for a threshold that is not zero.
\<close>

theorem swipeDown_silent_at_zero_threshold:
  "enableSwipeDown zeroThresholdProps \<and> onSwipeDown zeroThresholdProps
   \<and> swipeDownThreshold zeroThresholdProps = Some 0
   \<and> run zeroThresholdProps (dragGesture 0 250 @ [releaseAfter 0 250]) initial \<noteq> None
   \<and> swipeDownOffset (stateAfter zeroThresholdProps (dragGesture 0 250)) = 250
   \<and> CallOnSwipeDown \<notin> set (effects (stateAfter zeroThresholdProps
                                          (dragGesture 0 250 @ [releaseAfter 0 250])))"
  by (simp add: ex_defs op_defs)

text \<open>
  C2, amended: the release settle invokes \<open>onSwipeDown\<close> if and only if swipe down is
  enabled, \<open>swipeDownThreshold\<close> is set and not zero, \<open>swipeDownOffset\<close> exceeds it and the
  callback is provided; and a step of the component gives \<open>swipeDownOffset\<close> a new value
  other than 0 only as a single-touch move outside a double click, with \<open>panToMove\<close> and
  swipe down enabled, \<open>imageHeight * scale \<le> cropHeight\<close> and the gesture not flagged
  horizontal, the new value being the old one plus the vertical displacement.
\<close>

theorem swipeDown_fires_iff:
  "(\<forall>s'. panResponderReleaseResolve p s = Some s' \<longrightarrow>
        (CallOnSwipeDown \<in> set (emitted s s'))
          = (enableSwipeDown p \<and> truthy (swipeDownThreshold p)
               \<and> swipeDownOffset s > or0 (swipeDownThreshold p) \<and> onSwipeDown p))
   \<and> (\<forall>i s'. step p i s = Some s' \<longrightarrow> swipeDownOffset s' \<noteq> swipeDownOffset s
          \<longrightarrow> swipeDownOffset s' \<noteq> 0 \<longrightarrow>
        (\<exists>evt g. i = Move evt g \<and> touches evt = [] \<and> \<not> isDoubleClick s \<and> panToMove p
           \<and> enableSwipeDown p \<and> imageHeight p * scale s \<le> cropHeight p
           \<and> \<not> isHorizontalWrap s'
           \<and> swipeDownOffset s' = swipeDownOffset s + stepDiff (lastPositionY s) (dy g)))"
proof (intro conjI allI impI)
  fix s' assume r: "panResponderReleaseResolve p s = Some s'"
  show "(CallOnSwipeDown \<in> set (emitted s s'))
          = (enableSwipeDown p \<and> truthy (swipeDownThreshold p)
               \<and> swipeDownOffset s > or0 (swipeDownThreshold p) \<and> onSwipeDown p)"
  proof (cases "isSwipeDown p s")
    case True
    with r have "s' = (if onSwipeDown p then emit CallOnSwipeDown s else s)"
      by (simp add: panResponderReleaseResolve_def)
    then have "emitted s s' = (if onSwipeDown p then [CallOnSwipeDown] else [])"
      by (simp add: emitted_def)
    with True show ?thesis by (simp add: isSwipeDown_def)
  next
    case False
    from releaseResolve_effects[OF False r] obtain new where
      "effects s' = effects s @ new" and "CallOnSwipeDown \<notin> set new" by blast
    then have "CallOnSwipeDown \<notin> set (emitted s s')" by (simp add: emitted_append)
    with False show ?thesis by (auto simp: isSwipeDown_def)
  qed
next
  fix i s'
  assume st: "step p i s = Some s'" and ne: "swipeDownOffset s' \<noteq> swipeDownOffset s"
    and nz: "swipeDownOffset s' \<noteq> 0"
  show "\<exists>evt g. i = Move evt g \<and> touches evt = [] \<and> \<not> isDoubleClick s \<and> panToMove p
           \<and> enableSwipeDown p \<and> imageHeight p * scale s \<le> cropHeight p
           \<and> \<not> isHorizontalWrap s'
           \<and> swipeDownOffset s' = swipeDownOffset s + stepDiff (lastPositionY s) (dy g)"
  proof (cases i)
    case (Move evt g)
    with st have "onPanResponderMove p evt g s = Some s'" by simp
    from move_swipeDown[OF this ne] Move show ?thesis by blast
  next
    case (Release evt g)
    with st have "onPanResponderRelease p evt g s = Some s'" by simp
    from release_swipeDown[OF this] ne nz show ?thesis by simp
  next
    case ReleaseResolve
    with st have "panResponderReleaseResolve p s = Some s'" by simp
    from releaseResolve_swipeDown[OF this] ne nz show ?thesis by simp
  qed (use st ne in \<open>auto simp: grant_counters others_counters\<close>)
qed

text \<open>
  After a drag of 250 downwards the settle invokes \<open>onSwipeDown\<close> (threshold 230), and a
  further move of 20 downwards takes the offset from 250 to 270.
\<close>

theorem swipeDown_fires_iff_witness:
  "swipeDownOffset (stateAfter exampleProps (dragGesture 0 250)) = 250
   \<and> CallOnSwipeDown \<in> set (emitted (stateAfter exampleProps (dragGesture 0 250))
        (the (panResponderReleaseResolve exampleProps
                (stateAfter exampleProps (dragGesture 0 250)))))
   \<and> map_option swipeDownOffset
        (step exampleProps (Move (oneTouch 150 420) (drag 0 270))
           (stateAfter exampleProps (dragGesture 0 250))) = Some 270
   \<and> imageHeight exampleProps * scale (stateAfter exampleProps (dragGesture 0 250))
        \<le> cropHeight exampleProps"
  using swipeDown_fires_iff [of exampleProps "stateAfter exampleProps (dragGesture 0 250)"]
  by (simp add: ex_defs op_defs emitted_def)

subsection \<open>C8: the horizontal flag and the long-press timer\<close>

text \<open>
  C8, as stated: a single-touch gesture is flagged horizontal only once the accumulated
  motion exceeds 5 on either axis. It fails: a first displacement of 1 to the right sets
  the flag while the totals are 1 and 0, and the long-press timer is still pending.
\<close>

theorem horizontal_flag_below_threshold:
  "run exampleProps (dragGesture 1 0) initial \<noteq> None
   \<and> isHorizontalWrap (stateAfter exampleProps (dragGesture 1 0))
   \<and> horizontalWholeCounter (stateAfter exampleProps (dragGesture 1 0)) = 1
   \<and> verticalWholeCounter (stateAfter exampleProps (dragGesture 1 0)) = 0
   \<and> longPressTimeout (stateAfter exampleProps (dragGesture 1 0)) \<noteq> None"
  by (simp add: ex_defs op_defs)

text \<open>
  C8, amended: in a single-touch move outside a double click the displacement since the
  previous move event is added to the totals \<open>horizontalWholeCounter\<close> and
  \<open>verticalWholeCounter\<close>; the long-press timer is cleared when a total exceeds 5 in absolute
  value and is left alone otherwise; and the gesture is flagged horizontal afterwards
  exactly if it was flagged before or \<open>panToMove\<close> is enabled, \<open>swipeDownOffset\<close> is 0 and
  the horizontal displacement of this move is larger in absolute value than the vertical
  one, whatever the totals are.
\<close>

theorem move_flags:
  assumes "touches evt = []" and "\<not> isDoubleClick s"
    and "onPanResponderMove p evt g s = Some s'"
  shows "horizontalWholeCounter s' = horizontalWholeCounter s + stepDiff (lastPositionX s) (dx g)
    \<and> verticalWholeCounter s' = verticalWholeCounter s + stepDiff (lastPositionY s) (dy g)
    \<and> longPressTimeout s'
        = (if \<bar>horizontalWholeCounter s'\<bar> > 5 \<or> \<bar>verticalWholeCounter s'\<bar> > 5 then None
           else longPressTimeout s)
    \<and> isHorizontalWrap s'
        = (isHorizontalWrap s
           \<or> (panToMove p \<and> swipeDownOffset s = 0
                \<and> \<bar>stepDiff (lastPositionX s) (dx g)\<bar> > \<bar>stepDiff (lastPositionY s) (dy g)\<bar>))"
proof -
  from assms obtain s1 where m: "moveSingle p g s = Some s1"
    and s': "s' = imageDidMove p ''onPanResponderMove'' s1"
    by (auto simp: onPanResponderMove_def split: option.splits)
  have t: "longPressTimeout (trackMove g s)
      = (if \<bar>horizontalWholeCounter (trackMove g s)\<bar> > 5
            \<or> \<bar>verticalWholeCounter (trackMove g s)\<bar> > 5 then None
         else longPressTimeout s)"
    using trackMove_longPress[of g s] by (simp split: if_splits)
  from moveSingle_flags[OF m] t show ?thesis
    by (simp add: s')
qed

text \<open>
  The second move of a gesture, 7 to the right: the total passes 5, the timer is cleared
  and the gesture is flagged horizontal.
\<close>

theorem move_flags_witness:
  "touches (oneTouch 157 150) = []
   \<and> \<not> isDoubleClick (stateAfter exampleProps (dragGesture 0 0))
   \<and> longPressTimeout (stateAfter exampleProps (dragGesture 0 0)) \<noteq> None
   \<and> \<not> isHorizontalWrap (stateAfter exampleProps (dragGesture 0 0))
   \<and> map_option horizontalWholeCounter
        (onPanResponderMove exampleProps (oneTouch 157 150) (drag 7 0)
           (stateAfter exampleProps (dragGesture 0 0))) = Some 7
   \<and> map_option longPressTimeout
        (onPanResponderMove exampleProps (oneTouch 157 150) (drag 7 0)
           (stateAfter exampleProps (dragGesture 0 0))) = Some None
   \<and> map_option isHorizontalWrap
        (onPanResponderMove exampleProps (oneTouch 157 150) (drag 7 0)
           (stateAfter exampleProps (dragGesture 0 0))) = Some True"
  using move_flags [of "oneTouch 157 150" "stateAfter exampleProps (dragGesture 0 0)"
      exampleProps "drag 7 0"
      "the (onPanResponderMove exampleProps (oneTouch 157 150) (drag 7 0)
              (stateAfter exampleProps (dragGesture 0 0)))"]
  by (simp add: ex_defs op_defs)

subsection \<open>C3 and C5: the pinch\<close>

lemma pinchScale_clamp:
  "pinchScale p oldScale currentDistance lastDistance
     = clamp (oldScale + (currentDistance - lastDistance) / 200)
         (or0 (minScale p)) (or0 (maxScale p))"
  by (simp add: pinchScale_def clamp_def Let_def min_def max_def)

text \<open>A pinch step with a recorded span, spelled out.\<close>

lemma moveMulti_pinch:
  assumes "pinchToZoom p" and "zoomLastDistance s = Some d"
  shows "moveMulti p t0 t1 s =
     (let z = pinchScale p (scale s) (pinchDistance t0 t1) d
      in if z = 0 then None
         else Some (s\<lparr>longPressTimeout := None,
                       zoomCurrentDistance := pinchDistance t0 t1,
                       scale := z, animatedScale := z,
                       positionX := positionX s - centerDiffX s * (z - scale s) / z,
                       positionY := positionY s - centerDiffY s * (z - scale s) / z,
                       animatedPositionX := positionX s - centerDiffX s * (z - scale s) / z,
                       animatedPositionY := positionY s - centerDiffY s * (z - scale s) / z,
                       zoomLastDistance := Some (pinchDistance t0 t1)\<rparr>))"
  using assms by (simp add: moveMulti_def jsdiv_def Let_def)

lemma moveMulti_no_pinch:
  assumes "\<not> pinchToZoom p \<or> zoomLastDistance s = None"
  shows "moveMulti p t0 t1 s =
           Some (if pinchToZoom p
                 then s\<lparr>longPressTimeout := None,
                         zoomCurrentDistance := pinchDistance t0 t1,
                         zoomLastDistance := Some (pinchDistance t0 t1)\<rparr>
                 else s\<lparr>longPressTimeout := None\<rparr>)"
proof (cases "pinchToZoom p")
  case True
  with assms have "zoomLastDistance s = None" by simp
  with True show ?thesis by (simp add: moveMulti_def Let_def)
next
  case False
  then show ?thesis by (simp add: moveMulti_def Let_def)
qed

lemma pinch_scale_step:
  assumes "\<not> isDoubleClick s" and "touches evt = t1 # ts"
    and "pinchToZoom p" and "zoomLastDistance s = Some d"
  shows "(clamp (scale s + (pinchDistance (touch0 evt) t1 - d) / 200)
            (or0 (minScale p)) (or0 (maxScale p)) \<noteq> 0
          \<longrightarrow> onPanResponderMove p evt g s \<noteq> None)
    \<and> (\<forall>s'. onPanResponderMove p evt g s = Some s' \<longrightarrow>
          scale s' = clamp (scale s + (pinchDistance (touch0 evt) t1 - d) / 200)
                       (or0 (minScale p)) (or0 (maxScale p))
          \<and> zoomLastDistance s' = Some (pinchDistance (touch0 evt) t1))"
proof -
  define z where "z = pinchScale p (scale s) (pinchDistance (touch0 evt) t1) d"
  have zc: "z = clamp (scale s + (pinchDistance (touch0 evt) t1 - d) / 200)
                  (or0 (minScale p)) (or0 (maxScale p))"
    by (simp add: z_def pinchScale_clamp)
  have m: "onPanResponderMove p evt g s =
             (case moveMulti p (touch0 evt) t1 s of
                None \<Rightarrow> None | Some s' \<Rightarrow> Some (imageDidMove p ''onPanResponderMove'' s'))"
    using assms(1,2) by (simp add: onPanResponderMove_def)
  note mm = moveMulti_pinch[OF assms(3,4), of "touch0 evt" t1, folded z_def]
  show ?thesis
  proof (cases "z = 0")
    case True
    then have "onPanResponderMove p evt g s = None" by (simp add: m mm)
    with True show ?thesis by (simp add: zc[symmetric])
  next
    case False
    then show ?thesis unfolding zc[symmetric] by (simp add: m mm Let_def)
  qed
qed

text \<open>
  C3: in every state the component reaches from its initial state with a previous span
  \<open>d\<close> recorded, a move of two or more touches returns a state whenever the clamped scale
  is not zero, and the scale of the state it returns is
  \<open>clamp (scale + (span - d) / 200) minScale maxScale\<close>, the span being the distance of the
  first two touches rounded to one decimal; the span becomes the recorded one.
\<close>

theorem pinch_scale:
  assumes "run p ins initial = Some s" and "touches evt = t1 # ts"
    and "zoomLastDistance s = Some d"
  shows "(clamp (scale s + (pinchDistance (touch0 evt) t1 - d) / 200)
            (or0 (minScale p)) (or0 (maxScale p)) \<noteq> 0
          \<longrightarrow> onPanResponderMove p evt g s \<noteq> None)
    \<and> (\<forall>s'. onPanResponderMove p evt g s = Some s' \<longrightarrow>
          scale s' = clamp (scale s + (pinchDistance (touch0 evt) t1 - d) / 200)
                       (or0 (minScale p)) (or0 (maxScale p))
          \<and> zoomLastDistance s' = Some (pinchDistance (touch0 evt) t1))"
  by (rule pinch_scale_step[OF recorded_span(1)[OF assms(1,3)] assms(2)
        recorded_span(2)[OF assms(1,3)] assms(3)])

text \<open>
  Two fingers 100 apart, then 140 apart, at scale 1 with bounds 0.6 and 10: the scale
  becomes 6/5.
\<close>

theorem pinch_scale_witness:
  "run exampleProps [Grant (pinchAt 100) 1000, Move (pinchAt 100) (drag 0 0)] initial
     = Some (stateAfter exampleProps [Grant (pinchAt 100) 1000, Move (pinchAt 100) (drag 0 0)])
   \<and> touches (pinchAt 140) = [touchAt 220 150]
   \<and> scale (stateAfter exampleProps
               [Grant (pinchAt 100) 1000, Move (pinchAt 100) (drag 0 0)]) = 1
   \<and> zoomLastDistance (stateAfter exampleProps
                          [Grant (pinchAt 100) 1000, Move (pinchAt 100) (drag 0 0)]) = Some 100
   \<and> pinchDistance (touch0 (pinchAt 140)) (touchAt 220 150) = 140
   \<and> map_option scale
        (onPanResponderMove exampleProps (pinchAt 140) (drag 0 0)
           (stateAfter exampleProps
              [Grant (pinchAt 100) 1000, Move (pinchAt 100) (drag 0 0)])) = Some (6 / 5)"
  using pinch_scale [of exampleProps "[Grant (pinchAt 100) 1000, Move (pinchAt 100) (drag 0 0)]"
      "stateAfter exampleProps [Grant (pinchAt 100) 1000, Move (pinchAt 100) (drag 0 0)]"
      "pinchAt 140" "touchAt 220 150" "[]" 100 "drag 0 0"]
  by (simp add: ex_defs op_defs clamp_def)

text \<open>
  C5: in a move of two or more touches with \<open>centerDiffX = 0\<close> and \<open>centerDiffY = 0\<close> the
  step returns a state whenever the scale a pinch sets is not zero, and the state it
  returns has the \<open>positionX\<close> and \<open>positionY\<close> of the state before, whatever the change of
  scale.
\<close>

theorem pinch_centered_keeps_position:
  assumes "touches evt = t1 # ts" and "centerDiffX s = 0" and "centerDiffY s = 0"
  shows "((\<forall>d. zoomLastDistance s = Some d \<longrightarrow>
             pinchScale p (scale s) (pinchDistance (touch0 evt) t1) d \<noteq> 0)
          \<longrightarrow> onPanResponderMove p evt g s \<noteq> None)
    \<and> (\<forall>s'. onPanResponderMove p evt g s = Some s' \<longrightarrow>
          positionX s' = positionX s \<and> positionY s' = positionY s)"
proof (cases "isDoubleClick s")
  case True
  then show ?thesis by (simp add: onPanResponderMove_def)
next
  case False
  with assms(1) have m: "onPanResponderMove p evt g s =
             (case moveMulti p (touch0 evt) t1 s of
                None \<Rightarrow> None | Some s' \<Rightarrow> Some (imageDidMove p ''onPanResponderMove'' s'))"
    by (simp add: onPanResponderMove_def)
  show ?thesis
  proof (cases "pinchToZoom p \<and> zoomLastDistance s \<noteq> None")
    case pinch: True
    then obtain d where d: "zoomLastDistance s = Some d" by auto
    from pinch have "pinchToZoom p" by simp
    note mm = moveMulti_pinch[OF this d, of "touch0 evt" t1]
    show ?thesis
      using assms(2,3) d by (auto simp: m mm Let_def)
  next
    case False
    then have "\<not> pinchToZoom p \<or> zoomLastDistance s = None" by simp
    note mm = moveMulti_no_pinch[OF this, of "touch0 evt" t1]
    show ?thesis by (auto simp: m mm)
  qed
qed

text \<open>
  The image centred on \<open>(10, 20)\<close> at scale 2, then the same pinch from 100 to 140 around
  the centre of the box: the scale becomes 11/5 and the position stays \<open>(10, 20)\<close>.
\<close>

theorem pinch_centered_keeps_position_witness:
  "touches (pinchAt 140) = [touchAt 220 150]
   \<and> centerDiffX (stateAfter exampleProps
         [CenterOn \<lparr>co_x = 10, co_y = 20, co_scale = 2, co_duration = None\<rparr>,
          Grant (pinchAt 100) 1000, Move (pinchAt 100) (drag 0 0)]) = 0
   \<and> centerDiffY (stateAfter exampleProps
         [CenterOn \<lparr>co_x = 10, co_y = 20, co_scale = 2, co_duration = None\<rparr>,
          Grant (pinchAt 100) 1000, Move (pinchAt 100) (drag 0 0)]) = 0
   \<and> map_option scale
        (onPanResponderMove exampleProps (pinchAt 140) (drag 0 0)
           (stateAfter exampleProps
              [CenterOn \<lparr>co_x = 10, co_y = 20, co_scale = 2, co_duration = None\<rparr>,
               Grant (pinchAt 100) 1000, Move (pinchAt 100) (drag 0 0)])) = Some (11 / 5)
   \<and> map_option positionX
        (onPanResponderMove exampleProps (pinchAt 140) (drag 0 0)
           (stateAfter exampleProps
              [CenterOn \<lparr>co_x = 10, co_y = 20, co_scale = 2, co_duration = None\<rparr>,
               Grant (pinchAt 100) 1000, Move (pinchAt 100) (drag 0 0)])) = Some 10
   \<and> map_option positionY
        (onPanResponderMove exampleProps (pinchAt 140) (drag 0 0)
           (stateAfter exampleProps
              [CenterOn \<lparr>co_x = 10, co_y = 20, co_scale = 2, co_duration = None\<rparr>,
               Grant (pinchAt 100) 1000, Move (pinchAt 100) (drag 0 0)])) = Some 20"
  using pinch_centered_keeps_position [of "pinchAt 140" "touchAt 220 150" "[]"
      "stateAfter exampleProps
         [CenterOn \<lparr>co_x = 10, co_y = 20, co_scale = 2, co_duration = None\<rparr>,
          Grant (pinchAt 100) 1000, Move (pinchAt 100) (drag 0 0)]"
      exampleProps "drag 0 0"]
  by (simp add: ex_defs op_defs centerOn_def)

subsection \<open>C4: the zoom toggle of the double click\<close>

text \<open>
  A gesture start recognised as a double click at \<open>(x, y)\<close>, with double-click zoom
  enabled: the transform afterwards depends on whether the scale was 1.
\<close>

lemma grant_doubleClick:
  assumes "touches evt = []" and "now - lastClickTime s < or0 (doubleClickInterval p)"
    and "enableDoubleClickZoom p"
  shows "scale s \<noteq> 1 \<Longrightarrow>
           scale (onPanResponderGrant p evt now s) = 1
           \<and> positionX (onPanResponderGrant p evt now s) = 0
           \<and> positionY (onPanResponderGrant p evt now s) = 0"
    and "scale s = 1 \<Longrightarrow>
           scale (onPanResponderGrant p evt now s) = 2
           \<and> positionX (onPanResponderGrant p evt now s)
               = (cropWidth p / 2 - pageX (touch0 evt)) * (2 - 1) / 2
           \<and> positionY (onPanResponderGrant p evt now s)
               = (cropHeight p / 2 - pageY (touch0 evt)) * (2 - 1) / 2"
  using assms
  by (auto simp: onPanResponderGrant_def doubleClickZoom_def changedTouches_length_def
      imageDidMove_def emit_def Let_def)

text \<open>
  C4, as stated: from any transform, two double clicks at the same point leave scale 1
  and offset \<open>(0, 0)\<close>. It fails from a scale other than 1: with the image at scale 3, the
  first double click at \<open>(100, 120)\<close> resets the transform and the second one zooms to
  scale 2 with offset \<open>(25, 15)\<close>.
\<close>

theorem doubleTap_twice_from_zoomed:
  "run exampleProps
     (CenterOn \<lparr>co_x = 0, co_y = 0, co_scale = 3, co_duration = None\<rparr>
        # doubleTap 1000 @ doubleTap 2000) initial \<noteq> None
   \<and> scale (stateAfter exampleProps
        (CenterOn \<lparr>co_x = 0, co_y = 0, co_scale = 3, co_duration = None\<rparr>
           # doubleTap 1000)) = 1
   \<and> scale (stateAfter exampleProps
        (CenterOn \<lparr>co_x = 0, co_y = 0, co_scale = 3, co_duration = None\<rparr>
           # doubleTap 1000 @ doubleTap 2000)) = 2
   \<and> positionX (stateAfter exampleProps
        (CenterOn \<lparr>co_x = 0, co_y = 0, co_scale = 3, co_duration = None\<rparr>
           # doubleTap 1000 @ doubleTap 2000)) = 25
   \<and> positionY (stateAfter exampleProps
        (CenterOn \<lparr>co_x = 0, co_y = 0, co_scale = 3, co_duration = None\<rparr>
           # doubleTap 1000 @ doubleTap 2000)) = 15"
  by (simp add: ex_defs op_defs centerOn_def)

text \<open>
  C4, amended: with double-click zoom enabled, a double click at \<open>(x, y)\<close> on a scale other
  than 1 sets scale 1 and offset \<open>(0, 0)\<close>, and on scale 1 sets scale 2 and the offset
  \<open>((cropWidth / 2 - x) * (2 - 1) / 2, (cropHeight / 2 - y) * (2 - 1) / 2)\<close>. So a second double
  click, on any state \<open>t\<close> with the scale the first one left, ends at scale 1 and offset
  \<open>(0, 0)\<close> when the first one started from scale 1, and at scale 2 when it started from
  another scale.
\<close>

theorem doubleClick_toggle:
  assumes "touches evt = []" and "now - lastClickTime s < or0 (doubleClickInterval p)"
    and "touches evt' = []" and "now' - lastClickTime t < or0 (doubleClickInterval p)"
    and "enableDoubleClickZoom p"
    and "scale t = scale (onPanResponderGrant p evt now s)"
  shows "(scale s \<noteq> 1 \<longrightarrow>
            scale (onPanResponderGrant p evt now s) = 1
            \<and> positionX (onPanResponderGrant p evt now s) = 0
            \<and> positionY (onPanResponderGrant p evt now s) = 0
            \<and> scale (onPanResponderGrant p evt' now' t) = 2)
    \<and> (scale s = 1 \<longrightarrow>
            scale (onPanResponderGrant p evt now s) = 2
            \<and> positionX (onPanResponderGrant p evt now s)
                = (cropWidth p / 2 - pageX (touch0 evt)) * (2 - 1) / 2
            \<and> positionY (onPanResponderGrant p evt now s)
                = (cropHeight p / 2 - pageY (touch0 evt)) * (2 - 1) / 2
            \<and> scale (onPanResponderGrant p evt' now' t) = 1
            \<and> positionX (onPanResponderGrant p evt' now' t) = 0
            \<and> positionY (onPanResponderGrant p evt' now' t) = 0)"
proof (cases "scale s = 1")
  case True
  from grant_doubleClick(2)[OF assms(1,2,5) True]
  have g: "scale (onPanResponderGrant p evt now s) = 2
           \<and> positionX (onPanResponderGrant p evt now s)
               = (cropWidth p / 2 - pageX (touch0 evt)) * (2 - 1) / 2
           \<and> positionY (onPanResponderGrant p evt now s)
               = (cropHeight p / 2 - pageY (touch0 evt)) * (2 - 1) / 2" .
  with assms(6) have "scale t \<noteq> 1" by simp
  from grant_doubleClick(1)[OF assms(3,4,5) this] g True show ?thesis by simp
next
  case False
  from grant_doubleClick(1)[OF assms(1,2,5) False]
  have g: "scale (onPanResponderGrant p evt now s) = 1
           \<and> positionX (onPanResponderGrant p evt now s) = 0
           \<and> positionY (onPanResponderGrant p evt now s) = 0" .
  with assms(6) have "scale t = 1" by simp
  from grant_doubleClick(2)[OF assms(3,4,5) this] g False show ?thesis by simp
qed

text \<open>
  Two double clicks at \<open>(100, 120)\<close> from the initial state: the first tap of each pair
  only records its time; the second tap of the first pair zooms to scale 2 at offset
  \<open>(25, 15)\<close>, the second tap of the second pair returns to scale 1 at \<open>(0, 0)\<close>.
\<close>

theorem doubleClick_toggle_witness:
  "scale (stateAfter exampleProps (take 2 (doubleTap 1000))) = 1
   \<and> 1100 - lastClickTime (stateAfter exampleProps (take 2 (doubleTap 1000)))
        < or0 (doubleClickInterval exampleProps)
   \<and> 2100 - lastClickTime (stateAfter exampleProps (doubleTap 1000 @ take 2 (doubleTap 2000)))
        < or0 (doubleClickInterval exampleProps)
   \<and> scale (onPanResponderGrant exampleProps (oneTouch 100 120) 1100
               (stateAfter exampleProps (take 2 (doubleTap 1000)))) = 2
   \<and> positionX (onPanResponderGrant exampleProps (oneTouch 100 120) 1100
               (stateAfter exampleProps (take 2 (doubleTap 1000)))) = 25
   \<and> positionY (onPanResponderGrant exampleProps (oneTouch 100 120) 1100
               (stateAfter exampleProps (take 2 (doubleTap 1000)))) = 15
   \<and> scale (stateAfter exampleProps (doubleTap 1000 @ take 2 (doubleTap 2000))) = 2
   \<and> scale (onPanResponderGrant exampleProps (oneTouch 100 120) 2100
               (stateAfter exampleProps (doubleTap 1000 @ take 2 (doubleTap 2000)))) = 1
   \<and> positionX (onPanResponderGrant exampleProps (oneTouch 100 120) 2100
               (stateAfter exampleProps (doubleTap 1000 @ take 2 (doubleTap 2000)))) = 0
   \<and> positionY (onPanResponderGrant exampleProps (oneTouch 100 120) 2100
               (stateAfter exampleProps (doubleTap 1000 @ take 2 (doubleTap 2000)))) = 0"
  using doubleClick_toggle [of "oneTouch 100 120" 1100
      "stateAfter exampleProps (take 2 (doubleTap 1000))" exampleProps
      "oneTouch 100 120" 2100
      "stateAfter exampleProps (doubleTap 1000 @ take 2 (doubleTap 2000))"]
  by (simp add: ex_defs op_defs)

subsection \<open>C9: a repeated centerOn request\<close>

text \<open>
  C9, as stated: the second of two consecutive \<open>centerOn\<close> requests with identical
  parameters is detected and ignored, so that the tween is not restarted. It fails: the
  \<open>centerOn\<close> method compares nothing, and two calls with the same parameters start two
  parallel tweens; and a \<open>centerOn\<close> prop that is set, removed and set again with the same
  parameters starts the tween a second time, since the comparison is with the props just
  before.
\<close>

theorem centerOn_twice_restarts:
  "map_option effects
     (run exampleProps
        [CenterOn \<lparr>co_x = 10, co_y = 20, co_scale = 2, co_duration = None\<rparr>,
         CenterOn \<lparr>co_x = 10, co_y = 20, co_scale = 2, co_duration = None\<rparr>] initial)
     = Some
        [ParallelStart [(AnimScale, 2, 300), (AnimPositionX, 10, 300), (AnimPositionY, 20, 300)]
           True,
         ParallelStart [(AnimScale, 2, 300), (AnimPositionX, 10, 300), (AnimPositionY, 20, 300)]
           True]
   \<and> effects (componentDidUpdate centeredProps exampleProps
                 (componentDidUpdate exampleProps centeredProps
                    (componentDidMount centeredProps initial)))
     = [ParallelStart [(AnimScale, 2, 300), (AnimPositionX, 10, 300), (AnimPositionY, 20, 300)]
          True,
        ParallelStart [(AnimScale, 2, 300), (AnimPositionX, 10, 300), (AnimPositionY, 20, 300)]
          True]"
  by (simp add: ex_defs op_defs componentDidMount_def componentDidUpdate_def centerOn_def)

text \<open>
  C9, amended: \<open>didCenterOnChange\<close> is false exactly when \<open>x\<close>, \<open>y\<close> and \<open>scale\<close> of the two
  parameter sets are equal; \<open>componentDidUpdate\<close> with a \<open>centerOn\<close> prop leaves the
  component as it is (no tween is started) when the props before had a \<open>centerOn\<close> prop
  with the same three values, and calls \<open>centerOn\<close> with the new parameters when one of the
  three differs or the props before had no \<open>centerOn\<close> prop; and every call of \<open>centerOn\<close>
  starts one parallel tween to its parameters, whatever the call before was.
\<close>

theorem centerOn_repeat_ignored:
  "(\<not> didCenterOnChange a b) = (co_x a = co_x b \<and> co_y a = co_y b \<and> co_scale a = co_scale b)
   \<and> (centerOnProp prevProps = Some a \<and> centerOnProp p = Some b \<longrightarrow>
        componentDidUpdate p prevProps s
          = (if co_x a = co_x b \<and> co_y a = co_y b \<and> co_scale a = co_scale b then s
             else centerOn b s))
   \<and> (centerOnProp prevProps = None \<and> centerOnProp p = Some b \<longrightarrow>
        componentDidUpdate p prevProps s = centerOn b s)
   \<and> effects (centerOn b s)
       = effects s @
         [ParallelStart
            [(AnimScale, co_scale b,
                if truthy (co_duration b) then or0 (co_duration b) else 300),
             (AnimPositionX, co_x b,
                if truthy (co_duration b) then or0 (co_duration b) else 300),
             (AnimPositionY, co_y b,
                if truthy (co_duration b) then or0 (co_duration b) else 300)] True]"
  by (auto simp: didCenterOnChange_def componentDidUpdate_def centerOn_def emit_def Let_def)

text \<open>
  The component mounted with a \<open>centerOn\<close> prop starts one parallel tween; an update with
  the same prop adds nothing.
\<close>

theorem centerOn_repeat_ignored_witness:
  "centerOnProp centeredProps
     = Some \<lparr>co_x = 10, co_y = 20, co_scale = 2, co_duration = None\<rparr>
   \<and> effects (componentDidMount centeredProps initial)
       = [ParallelStart [(AnimScale, 2, 300), (AnimPositionX, 10, 300), (AnimPositionY, 20, 300)]
            True]
   \<and> componentDidUpdate centeredProps centeredProps (componentDidMount centeredProps initial)
       = componentDidMount centeredProps initial"
  using centerOn_repeat_ignored
    [where a = "\<lparr>co_x = 10, co_y = 20, co_scale = 2, co_duration = None\<rparr>"
       and b = "\<lparr>co_x = 10, co_y = 20, co_scale = 2, co_duration = None\<rparr>"
       and prevProps = centeredProps and p = centeredProps
       and s = "componentDidMount centeredProps initial"]
  by (simp add: ex_defs op_defs componentDidMount_def centerOn_def)

subsection \<open>C10: resetScale and reset\<close>

text \<open>
  C10: \<open>resetScale\<close> sets \<open>positionX\<close> and \<open>positionY\<close> to 0, \<open>scale\<close> to 1 and the animated
  scale to 1, and leaves the animated positions as they are; \<open>reset\<close> sets the three
  fields and the three animated values alike.
\<close>

theorem resetScale_frame:
  "positionX (resetScale s) = 0 \<and> positionY (resetScale s) = 0 \<and> scale (resetScale s) = 1
   \<and> animatedScale (resetScale s) = 1
   \<and> animatedPositionX (resetScale s) = animatedPositionX s
   \<and> animatedPositionY (resetScale s) = animatedPositionY s
   \<and> scale (reset s) = 1 \<and> positionX (reset s) = 0 \<and> positionY (reset s) = 0
   \<and> animatedScale (reset s) = 1 \<and> animatedPositionX (reset s) = 0
   \<and> animatedPositionY (reset s) = 0"
  by (simp add: resetScale_def reset_def)

end
